theory Spec2Isabelle
  imports Main "HOL-Library.AList" "HOL-Library.Char_ord" "HOL-Library.List_Lexorder"
    "HOL-Library.Sublist"
begin

section \<open>Entity model (code\_graph/models.py)\<close>

datatype NodeType = MODULE | PACKAGE | CLASS | FUNCTION | VARIABLE

datatype EdgeType = CONTAINS | IMPORTS | INHERITS | COMPOSES | CALLS | REFERENCES | DECORATES

text \<open>Exceptions of the program, as values.\<close>

datatype error = ValueError | IndexError | KeyError | SyntaxError

text \<open>The allow-list \<open>VALID_EDGES\<close>, entry by entry in the order of the source.\<close>

fun VALID_EDGES :: "EdgeType \<Rightarrow> (NodeType \<times> NodeType) list" where
  "VALID_EDGES CONTAINS =
     [(PACKAGE, MODULE), (MODULE, CLASS), (MODULE, FUNCTION), (CLASS, CLASS),
      (CLASS, FUNCTION), (CLASS, VARIABLE), (FUNCTION, FUNCTION), (FUNCTION, CLASS)]"
| "VALID_EDGES IMPORTS = [(MODULE, MODULE), (PACKAGE, PACKAGE)]"
| "VALID_EDGES INHERITS = [(CLASS, CLASS)]"
| "VALID_EDGES COMPOSES = [(CLASS, CLASS), (CLASS, FUNCTION), (CLASS, VARIABLE)]"
| "VALID_EDGES CALLS = [(FUNCTION, FUNCTION), (FUNCTION, CLASS)]"
| "VALID_EDGES REFERENCES = [(FUNCTION, VARIABLE), (CLASS, VARIABLE)]"
| "VALID_EDGES DECORATES =
     [(FUNCTION, FUNCTION), (FUNCTION, CLASS), (CLASS, FUNCTION), (CLASS, CLASS)]"

record GraphEdge =
  edge_type :: EdgeType
  source_node_id :: string
  target_node_id :: string
  source_node_type :: NodeType
  target_node_type :: NodeType

text \<open>\<open>GraphEdge.validate_edge\<close>: raises \<open>ValueError\<close> when the pair is not listed.\<close>

definition validate_edge :: "EdgeType \<Rightarrow> NodeType \<Rightarrow> NodeType \<Rightarrow> error + unit" where
  "validate_edge et st tt =
     (if (st, tt) \<notin> set (VALID_EDGES et) then Inl ValueError else Inr ())"

text \<open>\<open>GraphEdge.__init__\<close>: the fields are stored, then the edge is validated; an
  exception of the validation leaves the caller without an edge.\<close>

definition mk_GraphEdge ::
  "EdgeType \<Rightarrow> string \<Rightarrow> string \<Rightarrow> NodeType \<Rightarrow> NodeType \<Rightarrow> error + GraphEdge" where
  "mk_GraphEdge et sid tid st tt =
     (let self = \<lparr>edge_type = et, source_node_id = sid, target_node_id = tid,
                  source_node_type = st, target_node_type = tt\<rparr>
      in case validate_edge (edge_type self) (source_node_type self) (target_node_type self) of
           Inl e \<Rightarrow> Inl e
         | Inr _ \<Rightarrow> Inr self)"

section \<open>Strings and paths (Python \<open>str\<close> methods, \<open>os.path\<close> on POSIX)\<close>

text \<open>\<open>s.split(c)\<close>: all pieces between occurrences of the separator.\<close>

fun split_on :: "char \<Rightarrow> string \<Rightarrow> string list" where
  "split_on c [] = [[]]"
| "split_on c (x # xs) =
     (if x = c then [] # split_on c xs
      else (case split_on c xs of [] \<Rightarrow> [[x]] | h # t \<Rightarrow> (x # h) # t))"

text \<open>\<open>sep.join(parts)\<close>.\<close>

fun join :: "string \<Rightarrow> string list \<Rightarrow> string" where
  "join sep [] = []"
| "join sep [x] = x"
| "join sep (x # y # ys) = x @ sep @ join sep (y # ys)"

text \<open>\<open>s.split(c, 1)\<close>: one piece when the separator is absent, otherwise the text before
  and the text after its first occurrence.\<close>

definition split1 :: "char \<Rightarrow> string \<Rightarrow> string list" where
  "split1 c s =
     (if c \<in> set s then [takeWhile (\<lambda>x. x \<noteq> c) s, tl (dropWhile (\<lambda>x. x \<noteq> c) s)] else [s])"

text \<open>\<open>s.rsplit(c, 1)[0]\<close>: the text before the last occurrence of the separator, the
  whole string when the separator is absent.\<close>

definition rsplit1_head :: "char \<Rightarrow> string \<Rightarrow> string" where
  "rsplit1_head c s =
     (if c \<in> set s then rev (tl (dropWhile (\<lambda>x. x \<noteq> c) (rev s))) else s)"

text \<open>\<open>s.startswith(p)\<close>.\<close>

definition startswith :: "string \<Rightarrow> string \<Rightarrow> bool" where
  "startswith s p = (take (length p) s = p)"

text \<open>\<open>nid.split(":", 1)[1]\<close>: raises \<open>IndexError\<close> when the id has no colon.\<close>

definition after_colon :: "string \<Rightarrow> error + string" where
  "after_colon nid = (case split1 CHR '':'' nid of [_, full] \<Rightarrow> Inr full | _ \<Rightarrow> Inl IndexError)"

text \<open>The idiom
  \<^verbatim>\<open>try: _, full = x.split(":", 1); package = full.rsplit(".", 1)[0]
except ValueError: package = ""\<close>
  of \<open>update_reference_table\<close> and \<open>compute_node_id\<close>: unpacking a one-element list
  raises \<open>ValueError\<close>, which is caught.\<close>

definition package_of_id :: "string \<Rightarrow> string" where
  "package_of_id nid =
     (case split1 CHR '':'' nid of [_, full] \<Rightarrow> rsplit1_head CHR ''.'' full | _ \<Rightarrow> [])"

text \<open>\<open>os.path.basename\<close>: the text after the last slash.\<close>

definition basename :: "string \<Rightarrow> string" where
  "basename p = rev (takeWhile (\<lambda>x. x \<noteq> CHR ''/'') (rev p))"

text \<open>\<open>os.path.dirname\<close>: the text up to the last slash, trailing slashes removed unless
  it consists of slashes only.\<close>

definition dirname :: "string \<Rightarrow> string" where
  "dirname p =
     (let head = rev (dropWhile (\<lambda>x. x \<noteq> CHR ''/'') (rev p))
      in if list_all (\<lambda>x. x = CHR ''/'') head then head
         else rev (dropWhile (\<lambda>x. x = CHR ''/'') (rev head)))"

text \<open>\<open>os.path.splitext(p)[0]\<close> for a file name without slashes: the text before the last
  dot, unless only dots precede it.\<close>

definition splitext_root :: "string \<Rightarrow> string" where
  "splitext_root p =
     (let stem = rsplit1_head CHR ''.'' p
      in if CHR ''.'' \<in> set p \<and> \<not> list_all (\<lambda>x. x = CHR ''.'') stem then stem else p)"

text \<open>The components of a path that \<open>normpath\<close> keeps. Paths with \<open>..\<close> components and
  the current directory of relative paths are outside the model: both arguments of
  \<open>relpath\<close> are taken absolute, or relative to the same directory.\<close>

definition segments :: "string \<Rightarrow> string list" where
  "segments p = filter (\<lambda>s. s \<noteq> [] \<and> s \<noteq> ''.'') (split_on CHR ''/'' p)"

fun common_prefix_len :: "string list \<Rightarrow> string list \<Rightarrow> nat" where
  "common_prefix_len (x # xs) (y # ys) = (if x = y then Suc (common_prefix_len xs ys) else 0)"
| "common_prefix_len _ _ = 0"

text \<open>\<open>os.path.normpath(os.path.relpath(path, start)).split(os.sep)\<close>.\<close>

definition relpath_parts :: "string \<Rightarrow> string \<Rightarrow> string list" where
  "relpath_parts path start =
     (let s = segments start; p = segments path; i = common_prefix_len s p;
          rel = replicate (length s - i) ''..'' @ drop i p
      in if rel = [] then [''.''] else rel)"

section \<open>Package paths and module ids (code\_parser/utils.py, visitor.py)\<close>

text \<open>\<open>compute_package_full_path\<close>. The list \<open>parts\<close> is never empty.\<close>

definition compute_package_full_path :: "string \<Rightarrow> string \<Rightarrow> string" where
  "compute_package_full_path source_file project_root =
     (let parts = relpath_parts source_file project_root;
          parts' = (if last parts = ''__init__.py'' then butlast parts
                    else butlast parts @ [splitext_root (last parts)])
      in join ''.'' parts')"

text \<open>The simple name and the module id computed by \<open>CodeVisitor.__init__\<close>.\<close>

definition module_simple_name :: "string \<Rightarrow> string" where
  "module_simple_name source_file =
     (let filename = basename source_file
      in if filename = ''__init__.py'' then basename (dirname source_file)
         else splitext_root filename)"

definition compute_module_id :: "string \<Rightarrow> string \<Rightarrow> string" where
  "compute_module_id source_file project_root =
     ''module:'' @ compute_package_full_path source_file project_root @ ''.''
       @ module_simple_name source_file"

section \<open>Nodes (code\_graph/models.py)\<close>

text \<open>\<open>Metadata\<close>: the fields the program reads. Of the free-form \<open>additional\<close> map the
  program reads the key \<open>is_callable\<close> only; a node built without it has
  \<open>is_callable = False\<close>, as \<open>additional.get("is_callable")\<close> is then \<open>None\<close>. Line
  numbers, docstrings and the unparsed base classes are written and never read, and are
  left out.\<close>

record Metadata =
  source_file :: "string option"
  is_callable :: bool

record GraphNode =
  node_id :: string
  name :: string
  node_type :: NodeType
  metadata :: Metadata
  relationships :: "GraphEdge list"

text \<open>Truth value of an optional string: \<open>None\<close> and the empty string are false.\<close>

fun truthy :: "string option \<Rightarrow> bool" where
  "truthy None = False"
| "truthy (Some s) = (s \<noteq> [])"

text \<open>\<open>a or b\<close> for an optional string \<open>a\<close> and a string \<open>b\<close>.\<close>

fun or_else :: "string option \<Rightarrow> string \<Rightarrow> string" where
  "or_else (Some s) d = (if s \<noteq> [] then s else d)"
| "or_else None d = d"

text \<open>\<open>GraphNode.add_relationship\<close>.\<close>

definition add_relationship :: "GraphNode \<Rightarrow> GraphEdge \<Rightarrow> error + GraphNode" where
  "add_relationship self edge =
     (if source_node_id edge \<noteq> node_id self then Inl ValueError
      else Inr (self\<lparr>relationships := relationships self @ [edge]\<rparr>))"

fun NodeType_value :: "NodeType \<Rightarrow> string" where
  "NodeType_value MODULE = ''module''"
| "NodeType_value PACKAGE = ''package''"
| "NodeType_value CLASS = ''class''"
| "NodeType_value FUNCTION = ''function''"
| "NodeType_value VARIABLE = ''variable''"

fun EdgeType_value :: "EdgeType \<Rightarrow> string" where
  "EdgeType_value CONTAINS = ''contains''"
| "EdgeType_value IMPORTS = ''imports''"
| "EdgeType_value INHERITS = ''inherits''"
| "EdgeType_value COMPOSES = ''composes''"
| "EdgeType_value CALLS = ''calls''"
| "EdgeType_value REFERENCES = ''references''"
| "EdgeType_value DECORATES = ''decorates''"

section \<open>Locating a module's source (code\_parser/utils.py)\<close>

text \<open>The interpreter's search path and the file system, which \<open>find_package_source\<close>
  consults.\<close>

record environment =
  sys_path :: "string list"
  isfile :: "string \<Rightarrow> bool"
  isdir :: "string \<Rightarrow> bool"

text \<open>\<open>os.path.join(a, *p)\<close> on POSIX.\<close>

fun path_join :: "string \<Rightarrow> string list \<Rightarrow> string" where
  "path_join a [] = a"
| "path_join a (b # bs) =
     path_join (if startswith b ''/'' then b
                else if a = [] \<or> last a = CHR ''/'' then a @ b
                else a @ ''/'' @ b) bs"

fun find_package_source_in :: "environment \<Rightarrow> string list \<Rightarrow> string \<Rightarrow> string option" where
  "find_package_source_in E [] module_name = None"
| "find_package_source_in E (path # paths) module_name =
     (let module_path = path_join path (split_on CHR ''.'' module_name);
          file_path = module_path @ ''.py''
      in if isfile E file_path then Some file_path
         else if isdir E module_path \<and> isfile E (path_join module_path [''__init__.py''])
           then Some (path_join module_path [''__init__.py''])
         else find_package_source_in E paths module_name)"

definition find_package_source :: "environment \<Rightarrow> string \<Rightarrow> string option" where
  "find_package_source E module_name = find_package_source_in E (sys_path E) module_name"

section \<open>The per-file visitor (code\_parser/visitor.py)\<close>

text \<open>The syntax tree, as far as the visitor looks at it: the five node kinds with a
  \<open>visit_\<close> method, the \<open>Name\<close> and \<open>Attribute\<close> expressions that calls and decorators
  inspect, and any other node with its children in field order. The children of a class
  or function definition are given in the order \<open>generic_visit\<close> walks them: base classes
  (with keywords) or argument expressions, body, decorators. A function's return
  annotation, walked after the decorators, is not part of the model.\<close>

datatype ast =
    Import "string list"
  | ImportFrom "string option" "string list" nat
  | ClassDef string "ast list" "ast list" "ast list"
  | FunctionDef string "ast list" "ast list" "ast list"
  | Call ast "ast list"
  | Name string
  | Attribute ast string
  | Other "ast list"

text \<open>The visitor's state. Dictionaries keep insertion order, which \<open>lookup_node\<close> and
  \<open>get_graph_nodes\<close> depend on. The set \<open>handled_call_nodes\<close> is never added to and
  \<open>decorator_mappings\<close> is never used.\<close>

record visitor =
  src_file :: string
  module_id :: string
  graph_nodes :: "(string \<times> GraphNode) list"
  current_parent_ids :: "string list"
  reference_table :: "(string \<times> (string \<times> string) list) list"
  imported_module_cache :: "(string \<times> string) list"

text \<open>Whether the node stored under an id carries a source file.\<close>

definition has_source :: "(string \<times> GraphNode) list \<Rightarrow> string \<Rightarrow> bool" where
  "has_source nodes nid =
     (case map_of nodes nid of None \<Rightarrow> False | Some n \<Rightarrow> truthy (source_file (metadata n)))"

text \<open>\<open>update_reference_table\<close> of visitor.py.\<close>

definition update_reference_table :: "GraphNode \<Rightarrow> visitor \<Rightarrow> visitor" where
  "update_reference_table node s =
     (let package = package_of_id (node_id node);
          entries = (case map_of (reference_table s) (name node) of None \<Rightarrow> [] | Some m \<Rightarrow> m);
          existing_node_id = map_of entries package
      in if truthy existing_node_id \<and> the existing_node_id \<in> fst ` set (graph_nodes s)
            \<and> has_source (graph_nodes s) (the existing_node_id)
         then s\<lparr>reference_table := AList.update (name node) entries (reference_table s)\<rparr>
         else s\<lparr>reference_table :=
                  AList.update (name node) (AList.update package (node_id node) entries)
                    (reference_table s)\<rparr>)"

text \<open>\<open>update_reference_table\<close> of code\_visitor.py, the older visitor.\<close>

definition update_reference_table_cv :: "GraphNode \<Rightarrow> visitor \<Rightarrow> visitor" where
  "update_reference_table_cv node s =
     (let package = package_of_id (node_id node);
          entries = (case map_of (reference_table s) (name node) of None \<Rightarrow> [] | Some m \<Rightarrow> m);
          existing_node_id = map_of entries package
      in if truthy existing_node_id
         then (if \<not> has_source (graph_nodes s) (the existing_node_id)
                  \<and> truthy (source_file (metadata node))
               then s\<lparr>reference_table :=
                        AList.update (name node) (AList.update package (node_id node) entries)
                          (reference_table s)\<rparr>
               else s\<lparr>reference_table := AList.update (name node) entries (reference_table s)\<rparr>)
         else s\<lparr>reference_table :=
                  AList.update (name node) (AList.update package (node_id node) entries)
                    (reference_table s)\<rparr>)"

text \<open>The loop of \<open>lookup_node\<close> over the candidates, carrying \<open>best_id\<close> and
  \<open>best_score\<close>. The comparison of packages is reached only on equal scores with a best
  id present, and raises \<open>IndexError\<close> when that id has no colon.\<close>

fun lookup_loop ::
  "(string \<times> GraphNode) list \<Rightarrow> (string \<times> string) list \<Rightarrow> string option \<Rightarrow> int
     \<Rightarrow> error + string option" where
  "lookup_loop nodes [] best_id best_score = Inr best_id"
| "lookup_loop nodes ((package, nid) # rest) best_id best_score =
     (let score = (if has_source nodes nid then 1 else 0)
      in if score > best_score then lookup_loop nodes rest (Some nid) score
         else if score = best_score then
           (case best_id of
              None \<Rightarrow> lookup_loop nodes rest (Some nid) score
            | Some b \<Rightarrow>
                (case after_colon b of
                   Inl e \<Rightarrow> Inl e
                 | Inr full \<Rightarrow>
                     if package < rsplit1_head CHR ''.'' full
                     then lookup_loop nodes rest (Some nid) score
                     else lookup_loop nodes rest best_id best_score))
         else lookup_loop nodes rest best_id best_score)"

text \<open>\<open>lookup_node\<close> (the same text in visitor.py and code\_visitor.py).\<close>

definition lookup_node :: "visitor \<Rightarrow> string \<Rightarrow> error + string option" where
  "lookup_node s simple_name =
     (case map_of (reference_table s) simple_name of
        None \<Rightarrow> Inr None
      | Some candidates \<Rightarrow>
          if candidates = [] then Inr None
          else lookup_loop (graph_nodes s) candidates None (- 1))"

text \<open>\<open>compute_node_id\<close> of visitor.py.\<close>

definition compute_node_id :: "visitor \<Rightarrow> NodeType \<Rightarrow> string \<Rightarrow> string" where
  "compute_node_id s nt nm =
     (if current_parent_ids s = [] then NodeType_value nt @ '':'' @ module_id s @ ''.'' @ nm
      else NodeType_value nt @ '':'' @ package_of_id (last (current_parent_ids s)) @ ''.'' @ nm)"

text \<open>\<open>self.graph_nodes[nid].relationships.append(edge)\<close>: \<open>KeyError\<close> when the id is
  not a key.\<close>

definition append_relationship :: "string \<Rightarrow> GraphEdge \<Rightarrow> visitor \<Rightarrow> error + visitor" where
  "append_relationship nid edge s =
     (case map_of (graph_nodes s) nid of
        None \<Rightarrow> Inl KeyError
      | Some n \<Rightarrow>
          Inr (s\<lparr>graph_nodes :=
                   AList.update nid (n\<lparr>relationships := relationships n @ [edge]\<rparr>)
                     (graph_nodes s)\<rparr>))"

text \<open>\<open>add_node\<close>.\<close>

definition add_node :: "GraphNode \<Rightarrow> visitor \<Rightarrow> error + visitor" where
  "add_node node s =
     (let s1 = s\<lparr>graph_nodes := AList.update (node_id node) node (graph_nodes s)\<rparr>;
          s2 = update_reference_table node s1
      in if current_parent_ids s2 = [] then Inr s2
         else
           (let parent_id = last (current_parent_ids s2)
            in case map_of (graph_nodes s2) parent_id of
                 None \<Rightarrow> Inl KeyError
               | Some parent \<Rightarrow>
                   (case mk_GraphEdge CONTAINS parent_id (node_id node) (node_type parent)
                           (node_type node) of
                      Inl e \<Rightarrow> Inl e
                    | Inr contains_edge \<Rightarrow> append_relationship parent_id contains_edge s2)))"

text \<open>\<open>CodeVisitor.__init__\<close>. The parser is a parameter: \<open>ast.parse(code)\<close> raises
  \<open>SyntaxError\<close> on text that is not a program.\<close>

definition CodeVisitor_init ::
  "(string \<Rightarrow> error + ast) \<Rightarrow> string \<Rightarrow> string \<Rightarrow> string \<Rightarrow> error + visitor" where
  "CodeVisitor_init parse source code project_root =
     (if project_root = [] then Inl ValueError
      else
        (let mid = compute_module_id source project_root
         in case parse code of
              Inl e \<Rightarrow> Inl e
            | Inr _ \<Rightarrow>
                (let module_node =
                       \<lparr>node_id = mid, name = module_simple_name source, node_type = MODULE,
                        metadata = \<lparr>source_file = Some source, is_callable = False\<rparr>,
                        relationships = []\<rparr>;
                     s0 = \<lparr>src_file = source, module_id = mid,
                           graph_nodes = [(mid, module_node)], current_parent_ids = [],
                           reference_table = [], imported_module_cache = []\<rparr>;
                     s1 = update_reference_table module_node s0
                 in Inr (s1\<lparr>current_parent_ids := current_parent_ids s1 @ [mid]\<rparr>))))"

text \<open>The body of the loop shared by \<open>visit_Import\<close> and \<open>visit_ImportFrom\<close>: resolve or
  fabricate the module id, create the node when the id is new, append the edge to the
  current file's module node.\<close>

definition import_module :: "environment \<Rightarrow> string \<Rightarrow> visitor \<Rightarrow> error + visitor" where
  "import_module E imported_module s =
     (let imported_module_id =
            (case map_of (imported_module_cache s) imported_module of
               None \<Rightarrow> ''module:'' @ imported_module | Some i \<Rightarrow> i);
          s1 = s\<lparr>imported_module_cache :=
                   AList.update imported_module imported_module_id (imported_module_cache s)\<rparr>;
          module_source_file = find_package_source E imported_module;
          s2 = (if imported_module_id \<notin> fst ` set (graph_nodes s1)
                then
                  (let n = \<lparr>node_id = imported_module_id, name = imported_module,
                            node_type = MODULE,
                            metadata = \<lparr>source_file = module_source_file, is_callable = False\<rparr>,
                            relationships = []\<rparr>
                   in update_reference_table n
                        (s1\<lparr>graph_nodes := AList.update imported_module_id n (graph_nodes s1)\<rparr>))
                else s1)
      in case mk_GraphEdge IMPORTS (module_id s2) imported_module_id MODULE MODULE of
           Inl e \<Rightarrow> Inl e
         | Inr edge \<Rightarrow> append_relationship (module_id s2) edge s2)"

text \<open>\<open>visit_Import\<close>.\<close>

fun visit_Import :: "environment \<Rightarrow> string list \<Rightarrow> visitor \<Rightarrow> error + visitor" where
  "visit_Import E [] s = Inr s"
| "visit_Import E (alias # names) s =
     (case import_module E alias s of Inl e \<Rightarrow> Inl e | Inr s' \<Rightarrow> visit_Import E names s')"

text \<open>The base module of \<open>visit_ImportFrom\<close>. Unpacking \<open>module_id.split(":", 1)\<close> of an
  id without colon raises, which is caught and leaves no package parts.\<close>

definition import_base_module :: "visitor \<Rightarrow> string option \<Rightarrow> nat \<Rightarrow> string" where
  "import_base_module s module level =
     (if level > 0 then
        (let package_parts =
               (case split1 CHR '':'' (module_id s) of
                  [_, full] \<Rightarrow> split_on CHR ''.'' full | _ \<Rightarrow> []);
             base = join ''.'' (take (length package_parts - level) package_parts)
         in base @ (if truthy module then ''.'' @ the module else []))
      else (if truthy module then the module else []))"

fun import_from_names ::
  "environment \<Rightarrow> string \<Rightarrow> string list \<Rightarrow> visitor \<Rightarrow> error + visitor" where
  "import_from_names E base_module [] s = Inr s"
| "import_from_names E base_module (alias # names) s =
     (let imported_module = (if base_module \<noteq> [] then base_module @ ''.'' @ alias else alias)
      in case import_module E imported_module s of
           Inl e \<Rightarrow> Inl e
         | Inr s' \<Rightarrow> import_from_names E base_module names s')"

text \<open>\<open>visit_ImportFrom\<close>; the closing \<open>generic_visit\<close> finds only alias nodes.\<close>

definition visit_ImportFrom ::
  "environment \<Rightarrow> string option \<Rightarrow> string list \<Rightarrow> nat \<Rightarrow> visitor \<Rightarrow> error + visitor" where
  "visit_ImportFrom E module names level s =
     import_from_names E (import_base_module s module level) names s"

text \<open>The name a decorator or a receiver has when it is a plain \<open>Name\<close>.\<close>

fun name_id :: "ast \<Rightarrow> string option" where
  "name_id (Name x) = Some x"
| "name_id _ = None"

text \<open>\<open>f"{obj_name}"\<close>: \<open>None\<close> prints as the text None.\<close>

fun fmt_opt :: "string option \<Rightarrow> string" where
  "fmt_opt None = ''None''"
| "fmt_opt (Some x) = x"

text \<open>\<open>handle_decorators\<close>, for a class or function definition's decorator list.\<close>

fun handle_decorators :: "ast list \<Rightarrow> string \<Rightarrow> visitor \<Rightarrow> error + visitor" where
  "handle_decorators [] target_id s = Inr s"
| "handle_decorators (decorator # rest) target_id s =
     (let looked =
            (case decorator of
               Name decorator_name \<Rightarrow> Some (decorator_name, decorator_name)
             | Attribute v decorator_name \<Rightarrow>
                 Some (fmt_opt (name_id v) @ ''.'' @ decorator_name, decorator_name)
             | _ \<Rightarrow> None)
      in case looked of
           None \<Rightarrow> handle_decorators rest target_id s
         | Some (key, decorator_name) \<Rightarrow>
             (case lookup_node s key of
                Inl e \<Rightarrow> Inl e
              | Inr found \<Rightarrow>
                  (let full_decorator_id =
                         or_else found (compute_node_id s FUNCTION decorator_name);
                       target_node_type =
                         (if startswith target_id ''function:'' then FUNCTION else CLASS)
                   in case mk_GraphEdge DECORATES full_decorator_id target_id FUNCTION
                             target_node_type of
                        Inl e \<Rightarrow> Inl e
                      | Inr decorates_edge \<Rightarrow>
                          (case append_relationship target_id decorates_edge s of
                             Inl e \<Rightarrow> Inl e
                           | Inr s' \<Rightarrow> handle_decorators rest target_id s'))))"

text \<open>The first id with the given prefix, searching the scope stack from the innermost
  scope outward.\<close>

definition innermost :: "string \<Rightarrow> string list \<Rightarrow> string option" where
  "innermost pre parents = List.find (\<lambda>p. startswith p pre) (rev parents)"

text \<open>The callee \<open>visit_Call\<close> resolves, if any.\<close>

definition resolve_callee :: "visitor \<Rightarrow> ast \<Rightarrow> error + string option" where
  "resolve_callee s func =
     (case func of
        Name fid \<Rightarrow>
          (case lookup_node s fid of
             Inl e \<Rightarrow> Inl e
           | Inr found \<Rightarrow>
               (let possible_class_id = or_else found (compute_node_id s CLASS fid)
                in case map_of (graph_nodes s) possible_class_id of
                     None \<Rightarrow> Inr None
                   | Some n \<Rightarrow>
                       if is_callable (metadata n) then Inr (Some possible_class_id)
                       else Inr (Some (or_else found (compute_node_id s FUNCTION fid)))))
      | Attribute v attr_name \<Rightarrow>
          (let obj_name = name_id v
           in if truthy obj_name \<and> (the obj_name = ''self'' \<or> the obj_name = ''cls'') then
                (case innermost ''class:'' (current_parent_ids s) of
                   None \<Rightarrow> Inr None
                 | Some parent_class_id \<Rightarrow>
                     if parent_class_id = [] then Inr None
                     else (case after_colon parent_class_id of
                             Inl e \<Rightarrow> Inl e
                           | Inr full \<Rightarrow> Inr (Some (''function:'' @ full @ ''.'' @ attr_name))))
              else
                (case (case obj_name of None \<Rightarrow> Inr None | Some x \<Rightarrow> lookup_node s x) of
                   Inl e \<Rightarrow> Inl e
                 | Inr found \<Rightarrow>
                     (let possible_class_id =
                            or_else found (compute_node_id s CLASS (fmt_opt obj_name))
                      in case map_of (graph_nodes s) possible_class_id of
                           None \<Rightarrow> Inr None
                         | Some n \<Rightarrow>
                             if is_callable (metadata n) then Inr (Some possible_class_id)
                             else Inr None)))
      | _ \<Rightarrow> Inr None)"

text \<open>\<open>visit_Call\<close> up to its closing \<open>generic_visit\<close>.\<close>

definition record_call :: "ast \<Rightarrow> visitor \<Rightarrow> error + visitor" where
  "record_call func s =
     (let caller_id =
            (case innermost ''function:'' (current_parent_ids s) of
               None \<Rightarrow> module_id s | Some p \<Rightarrow> p)
      in case resolve_callee s func of
           Inl e \<Rightarrow> Inl e
         | Inr called_function_id \<Rightarrow>
             if truthy called_function_id then
               (case mk_GraphEdge CALLS caller_id (the called_function_id) FUNCTION
                       (if startswith (the called_function_id) ''class:'' then CLASS
                        else FUNCTION) of
                  Inl e \<Rightarrow> Inl e
                | Inr edge \<Rightarrow> append_relationship caller_id edge s)
             else Inr s)"

text \<open>Whether a class body defines \<open>__call__\<close>.\<close>

fun defines_call :: "ast list \<Rightarrow> bool" where
  "defines_call [] = False"
| "defines_call (FunctionDef nm _ _ _ # rest) = (nm = ''__call__'' \<or> defines_call rest)"
| "defines_call (_ # rest) = defines_call rest"

text \<open>\<open>self.current_parent_ids.pop()\<close>.\<close>

definition pop_parent :: "visitor \<Rightarrow> visitor" where
  "pop_parent s = s\<lparr>current_parent_ids := butlast (current_parent_ids s)\<rparr>"

definition push_parent :: "string \<Rightarrow> visitor \<Rightarrow> visitor" where
  "push_parent nid s = s\<lparr>current_parent_ids := current_parent_ids s @ [nid]\<rparr>"

text \<open>A class or function definition up to the point where its children are walked:
  \<open>None\<close> when a node of that name is already resolvable and the definition is skipped,
  otherwise the state with the new node added, the scope pushed and the decorators
  handled.\<close>

definition enter_ClassDef ::
  "string \<Rightarrow> ast list \<Rightarrow> ast list \<Rightarrow> visitor \<Rightarrow> error + visitor option" where
  "enter_ClassDef nm body decorators s =
     (let class_id = compute_node_id s CLASS nm
      in case lookup_node s nm of
           Inl e \<Rightarrow> Inl e
         | Inr existing_node_id \<Rightarrow>
             if truthy existing_node_id then Inr None
             else
               (let class_node =
                      \<lparr>node_id = class_id, name = nm, node_type = CLASS,
                       metadata = \<lparr>source_file = Some (src_file s),
                                   is_callable = defines_call body\<rparr>,
                       relationships = []\<rparr>
                in case add_node class_node s of
                     Inl e \<Rightarrow> Inl e
                   | Inr s1 \<Rightarrow>
                       (case handle_decorators decorators class_id (push_parent class_id s1) of
                          Inl e \<Rightarrow> Inl e
                        | Inr s2 \<Rightarrow> Inr (Some s2))))"

definition enter_FunctionDef ::
  "string \<Rightarrow> ast list \<Rightarrow> visitor \<Rightarrow> error + visitor option" where
  "enter_FunctionDef nm decorators s =
     (let parent_id = (if current_parent_ids s \<noteq> [] then last (current_parent_ids s)
                       else module_id s);
          is_method = startswith parent_id ''class:'';
          function_id = compute_node_id s FUNCTION nm
      in case lookup_node s nm of
           Inl e \<Rightarrow> Inl e
         | Inr existing_node_id \<Rightarrow>
             if truthy existing_node_id then Inr None
             else
               (let function_node =
                      \<lparr>node_id = function_id, name = nm, node_type = FUNCTION,
                       metadata = \<lparr>source_file = Some (src_file s), is_callable = False\<rparr>,
                       relationships = []\<rparr>
                in case add_node function_node s of
                     Inl e \<Rightarrow> Inl e
                   | Inr s1 \<Rightarrow>
                       (case (if is_method then
                                (case mk_GraphEdge CONTAINS parent_id function_id CLASS FUNCTION of
                                   Inl e \<Rightarrow> Inl e
                                 | Inr method_edge \<Rightarrow> append_relationship parent_id method_edge s1)
                              else Inr s1) of
                          Inl e \<Rightarrow> Inl e
                        | Inr s2 \<Rightarrow>
                            (case handle_decorators decorators function_id
                                    (push_parent function_id s2) of
                               Inl e \<Rightarrow> Inl e
                             | Inr s3 \<Rightarrow> Inr (Some s3)))))"

text \<open>\<open>NodeVisitor.visit\<close> with the visitor's methods, and \<open>generic_visit\<close> over a list of
  children.\<close>

fun visit :: "environment \<Rightarrow> ast \<Rightarrow> visitor \<Rightarrow> error + visitor"
  and visit_all :: "environment \<Rightarrow> ast list \<Rightarrow> visitor \<Rightarrow> error + visitor" where
  "visit_all E [] s = Inr s"
| "visit_all E (n # ns) s =
     (case visit E n s of Inl e \<Rightarrow> Inl e | Inr s' \<Rightarrow> visit_all E ns s')"
| "visit E (Import names) s = visit_Import E names s"
| "visit E (ImportFrom module names level) s = visit_ImportFrom E module names level s"
| "visit E (ClassDef nm bases body decorators) s =
     (case enter_ClassDef nm body decorators s of
        Inl e \<Rightarrow> Inl e
      | Inr None \<Rightarrow> Inr s
      | Inr (Some s1) \<Rightarrow>
          (case visit_all E bases s1 of
             Inl e \<Rightarrow> Inl e
           | Inr s2 \<Rightarrow>
               (case visit_all E body s2 of
                  Inl e \<Rightarrow> Inl e
                | Inr s3 \<Rightarrow>
                    (case visit_all E decorators s3 of
                       Inl e \<Rightarrow> Inl e
                     | Inr s4 \<Rightarrow> Inr (pop_parent s4)))))"
| "visit E (FunctionDef nm args body decorators) s =
     (case enter_FunctionDef nm decorators s of
        Inl e \<Rightarrow> Inl e
      | Inr None \<Rightarrow> Inr s
      | Inr (Some s1) \<Rightarrow>
          (case visit_all E args s1 of
             Inl e \<Rightarrow> Inl e
           | Inr s2 \<Rightarrow>
               (case visit_all E body s2 of
                  Inl e \<Rightarrow> Inl e
                | Inr s3 \<Rightarrow>
                    (case visit_all E decorators s3 of
                       Inl e \<Rightarrow> Inl e
                     | Inr s4 \<Rightarrow> Inr (pop_parent s4)))))"
| "visit E (Call func args) s =
     (case record_call func s of
        Inl e \<Rightarrow> Inl e
      | Inr s1 \<Rightarrow>
          (case visit E func s1 of Inl e \<Rightarrow> Inl e | Inr s2 \<Rightarrow> visit_all E args s2))"
| "visit E (Name x) s = Inr s"
| "visit E (Attribute v attr) s = visit E v s"
| "visit E (Other children) s = visit_all E children s"

text \<open>\<open>get_graph_nodes\<close>.\<close>

definition get_graph_nodes :: "visitor \<Rightarrow> GraphNode list" where
  "get_graph_nodes s = map snd (graph_nodes s)"

text \<open>The first three statements of \<open>build_from_code\<close> (code\_graph/utils.py): parse the
  text, construct the visitor, walk the tree.\<close>

definition run_visitor ::
  "(string \<Rightarrow> error + ast) \<Rightarrow> environment \<Rightarrow> string \<Rightarrow> string \<Rightarrow> string \<Rightarrow> error + visitor" where
  "run_visitor parse E source code project_root =
     (case parse code of
        Inl e \<Rightarrow> Inl e
      | Inr tree \<Rightarrow>
          (case CodeVisitor_init parse source code project_root of
             Inl e \<Rightarrow> Inl e
           | Inr s \<Rightarrow> visit E tree s))"

text \<open>Invariant 2 of the data model: the edges a node holds start at that node.\<close>

definition relationships_owned :: "visitor \<Rightarrow> bool" where
  "relationships_owned s =
     list_all (\<lambda>(k, n). list_all (\<lambda>e. source_node_id e = node_id n) (relationships n))
       (graph_nodes s)"

text \<open>Two environments: one where no module can be located, and one with the standard
  library's \<open>os.py\<close> on the search path.\<close>

definition no_modules :: environment where
  "no_modules = \<lparr>sys_path = [], isfile = (\<lambda>p. False), isdir = (\<lambda>p. False)\<rparr>"


text \<open>What a state shows of its nodes: each id with the (type, source, target) of the
  edges the node holds, and each id with the node's source file.\<close>

definition edges_held :: "visitor \<Rightarrow> (string \<times> (EdgeType \<times> string \<times> string) list) list" where
  "edges_held s =
     map (\<lambda>(k, n). (k, map (\<lambda>e. (edge_type e, source_node_id e, target_node_id e))
                            (relationships n))) (graph_nodes s)"



text \<open>The edge \<open>visit_Import\<close> and \<open>visit_ImportFrom\<close> append.\<close>

definition imports_edge :: "string \<Rightarrow> string \<Rightarrow> GraphEdge" where
  "imports_edge a b =
     \<lparr>edge_type = IMPORTS, source_node_id = a, target_node_id = b,
      source_node_type = MODULE, target_node_type = MODULE\<rparr>"

text \<open>The visitor of the file \<open>/p/dummy.py\<close> under the root \<open>/p\<close>, right after its
  construction.\<close>

definition dummy_module :: GraphNode where
  "dummy_module =
     \<lparr>node_id = ''module:dummy.dummy'', name = ''dummy'', node_type = MODULE,
      metadata = \<lparr>source_file = Some ''/p/dummy.py'', is_callable = False\<rparr>,
      relationships = []\<rparr>"

definition dummy_visitor :: visitor where
  "dummy_visitor =
     \<lparr>src_file = ''/p/dummy.py'', module_id = ''module:dummy.dummy'',
      graph_nodes = [(''module:dummy.dummy'', dummy_module)],
      current_parent_ids = [''module:dummy.dummy''],
      reference_table = [(''dummy'', [(''dummy'', ''module:dummy.dummy'')])],
      imported_module_cache = []\<rparr>"

text \<open>A function node as the tests build it: an id, a name and an optional source file.\<close>

definition create_test_node :: "string \<Rightarrow> string \<Rightarrow> string option \<Rightarrow> GraphNode" where
  "create_test_node nid nm src =
     \<lparr>node_id = nid, name = nm, node_type = FUNCTION,
      metadata = \<lparr>source_file = src, is_callable = False\<rparr>, relationships = []\<rparr>"

text \<open>The id the reference table holds for a name and a package.\<close>

definition stored_id :: "visitor \<Rightarrow> string \<Rightarrow> string \<Rightarrow> string option" where
  "stored_id s nm package =
     (case map_of (reference_table s) nm of None \<Rightarrow> None | Some m \<Rightarrow> map_of m package)"

text \<open>\<open>add_node\<close> with the reference-table update of code\_visitor.py.\<close>

definition add_node_cv :: "GraphNode \<Rightarrow> visitor \<Rightarrow> error + visitor" where
  "add_node_cv node s =
     (let s1 = s\<lparr>graph_nodes := AList.update (node_id node) node (graph_nodes s)\<rparr>;
          s2 = update_reference_table_cv node s1
      in if current_parent_ids s2 = [] then Inr s2
         else
           (let parent_id = last (current_parent_ids s2)
            in case map_of (graph_nodes s2) parent_id of
                 None \<Rightarrow> Inl KeyError
               | Some parent \<Rightarrow>
                   (case mk_GraphEdge CONTAINS parent_id (node_id node) (node_type parent)
                           (node_type node) of
                      Inl e \<Rightarrow> Inl e
                    | Inr contains_edge \<Rightarrow> append_relationship parent_id contains_edge s2)))"

text \<open>A table holding, for one name, exactly the given candidates in the given order.\<close>

definition with_candidates :: "visitor \<Rightarrow> string \<Rightarrow> (string \<times> string) list \<Rightarrow> visitor" where
  "with_candidates s nm candidates =
     s\<lparr>reference_table := AList.update nm candidates (reference_table s)\<rparr>"


text \<open>A visitor knowing three functions named \<open>f\<close>: two defined in files, one a placeholder.\<close>

definition lookup_state :: visitor where
  "lookup_state =
     dummy_visitor\<lparr>graph_nodes :=
       [(''module:dummy.dummy'', dummy_module),
        (''function:a.f'', create_test_node ''function:a.f'' ''f'' (Some ''/p/a.py'')),
        (''function:b.f'', create_test_node ''function:b.f'' ''f'' None),
        (''function:c.f'', create_test_node ''function:c.f'' ''f'' (Some ''/p/c.py''))]\<rparr>"


section \<open>The project graph (code\_graph/graph.py, over networkx.DiGraph)\<close>

text \<open>A \<open>DiGraph\<close> as networkx stores it: an insertion-ordered dictionary from node id to
  the node's attributes and its insertion-ordered dictionary of successors with the edge
  attributes. Of a node's attributes the program uses the entry \<open>data\<close> only (absent for a
  node that \<open>add_edge\<close> created), and of \<open>data\<close> it reads the name and the source file.
  Edge attributes are a dictionary from text to text.\<close>

record node_data =
  data_name :: "string option"
  data_source_file :: "string option"

type_synonym edge_attr = "(string \<times> string) list"

type_synonym adjacency = "(string \<times> edge_attr) list"

type_synonym DiGraph = "(string \<times> node_data option \<times> adjacency) list"

definition has_node :: "DiGraph \<Rightarrow> string \<Rightarrow> bool" where
  "has_node g n = (n \<in> fst ` set g)"

definition has_edge :: "DiGraph \<Rightarrow> string \<Rightarrow> string \<Rightarrow> bool" where
  "has_edge g u v =
     (case map_of g u of None \<Rightarrow> False | Some (d, adj) \<Rightarrow> v \<in> fst ` set adj)"

text \<open>\<open>G.edges(data=True)\<close>: node by node, each node's successors in order.\<close>

definition edges :: "DiGraph \<Rightarrow> (string \<times> string \<times> edge_attr) list" where
  "edges g = concat (map (\<lambda>(u, d, adj). map (\<lambda>(v, a). (u, v, a)) adj) g)"

text \<open>\<open>G.add_node(n, data=d)\<close>: a new node goes to the end, an existing one has its
  attribute replaced.\<close>

definition nx_add_node :: "DiGraph \<Rightarrow> string \<Rightarrow> node_data \<Rightarrow> DiGraph" where
  "nx_add_node g n d =
     (if has_node g n then map (\<lambda>(k, d', adj). if k = n then (k, Some d, adj) else (k, d', adj)) g
      else g @ [(n, Some d, [])])"

text \<open>The node that \<open>add_edge\<close> creates for an unknown endpoint.\<close>

definition ensure_node :: "DiGraph \<Rightarrow> string \<Rightarrow> DiGraph" where
  "ensure_node g n = (if has_node g n then g else g @ [(n, None, [])])"

definition set_adj :: "DiGraph \<Rightarrow> string \<Rightarrow> (adjacency \<Rightarrow> adjacency) \<Rightarrow> DiGraph" where
  "set_adj g u f = map (\<lambda>(k, d, adj). if k = u then (k, d, f adj) else (k, d, adj)) g"

text \<open>\<open>dict.update\<close>.\<close>

definition dict_update :: "edge_attr \<Rightarrow> edge_attr \<Rightarrow> edge_attr" where
  "dict_update d new = fold (\<lambda>(k, x). AList.update k x) new d"

text \<open>\<open>G.add_edge(u, v, **attr)\<close>: missing endpoints are created; the attributes of an
  existing edge are updated.\<close>

definition nx_add_edge :: "DiGraph \<Rightarrow> string \<Rightarrow> string \<Rightarrow> edge_attr \<Rightarrow> DiGraph" where
  "nx_add_edge g u v attr =
     set_adj (ensure_node (ensure_node g u) v) u
       (\<lambda>adj. AList.update v
                 (dict_update (case map_of adj v of None \<Rightarrow> [] | Some a \<Rightarrow> a) attr) adj)"

text \<open>\<open>G.remove_edge(u, v)\<close>, which the program calls for existing edges only.\<close>

definition remove_edge :: "DiGraph \<Rightarrow> string \<Rightarrow> string \<Rightarrow> DiGraph" where
  "remove_edge g u v = set_adj g u (AList.delete v)"

text \<open>\<open>G.remove_node(n)\<close>: the node goes, with every edge from or to it.\<close>

definition remove_node :: "DiGraph \<Rightarrow> string \<Rightarrow> DiGraph" where
  "remove_node g n =
     map (\<lambda>(k, d, adj). (k, d, AList.delete n adj)) (filter (\<lambda>(k, _). k \<noteq> n) g)"

text \<open>\<open>CodeGraph.add_node\<close>, \<open>add_edge\<close> and \<open>build_from_nodes\<close>. The dump of a node leaves
  out fields that are \<open>None\<close>.\<close>

definition dump_node :: "GraphNode \<Rightarrow> node_data" where
  "dump_node n = \<lparr>data_name = Some (name n), data_source_file = source_file (metadata n)\<rparr>"

definition CodeGraph_add_node :: "DiGraph \<Rightarrow> GraphNode \<Rightarrow> DiGraph" where
  "CodeGraph_add_node g node = nx_add_node g (node_id node) (dump_node node)"

definition CodeGraph_add_edge :: "DiGraph \<Rightarrow> string \<Rightarrow> GraphEdge \<Rightarrow> DiGraph" where
  "CodeGraph_add_edge g source_id edge =
     nx_add_edge g source_id (target_node_id edge)
       [(''relationship'', EdgeType_value (edge_type edge))]"

definition build_from_nodes :: "DiGraph \<Rightarrow> GraphNode list \<Rightarrow> DiGraph" where
  "build_from_nodes g nodes =
     fold (\<lambda>node g. fold (\<lambda>edge g. CodeGraph_add_edge g (node_id node) edge)
                       (relationships node) g)
       nodes (fold (\<lambda>node g. CodeGraph_add_node g node) nodes g)"

text \<open>The name under which \<open>merge_nodes_by_reference\<close> groups a node: \<open>data.name\<close> when
  present and not empty.\<close>

definition group_name :: "node_data option \<Rightarrow> string option" where
  "group_name d =
     (case d of None \<Rightarrow> None
      | Some dd \<Rightarrow> if truthy (data_name dd) then data_name dd else None)"

text \<open>The first loop: \<open>simple_to_ids.setdefault(name, []).append(node_id)\<close>.\<close>

definition simple_to_ids_step ::
  "string \<times> node_data option \<times> adjacency \<Rightarrow> (string \<times> string list) list
     \<Rightarrow> (string \<times> string list) list" where
  "simple_to_ids_step = (\<lambda>(nid, d, adj) acc.
     case group_name d of
       None \<Rightarrow> acc
     | Some nm \<Rightarrow>
         AList.update nm ((case map_of acc nm of None \<Rightarrow> [] | Some ids \<Rightarrow> ids) @ [nid]) acc)"

definition simple_to_ids :: "DiGraph \<Rightarrow> (string \<times> string list) list" where
  "simple_to_ids g = fold simple_to_ids_step g []"

text \<open>\<open>score(nid)\<close>: \<open>KeyError\<close> for an id without \<open>data\<close>, \<open>IndexError\<close> for an id without
  colon.\<close>

definition score :: "DiGraph \<Rightarrow> string \<Rightarrow> error + (int \<times> string)" where
  "score g nid =
     (case map_of g nid of
        None \<Rightarrow> Inl KeyError
      | Some (None, adj) \<Rightarrow> Inl KeyError
      | Some (Some d, adj) \<Rightarrow>
          (case after_colon nid of
             Inl e \<Rightarrow> Inl e
           | Inr pkg \<Rightarrow> Inr (- (if truthy (data_source_file d) then 1 else 0), pkg)))"

text \<open>Order of the score tuples.\<close>

definition score_less :: "int \<times> string \<Rightarrow> int \<times> string \<Rightarrow> bool" where
  "score_less a b = (fst a < fst b \<or> (fst a = fst b \<and> snd a < snd b))"

text \<open>\<open>min(ids, key=score)\<close> on a list that is not empty: every key is computed, and the
  first id with the least key is returned.\<close>

fun min_from :: "DiGraph \<Rightarrow> string \<Rightarrow> int \<times> string \<Rightarrow> string list \<Rightarrow> error + string" where
  "min_from g best k [] = Inr best"
| "min_from g best k (nid # ids) =
     (case score g nid of
        Inl e \<Rightarrow> Inl e
      | Inr k' \<Rightarrow> if score_less k' k then min_from g nid k' ids else min_from g best k ids)"

definition canonical_id :: "DiGraph \<Rightarrow> string list \<Rightarrow> error + string" where
  "canonical_id g ids =
     (case ids of
        [] \<Rightarrow> Inl ValueError
      | nid # rest \<Rightarrow> (case score g nid of Inl e \<Rightarrow> Inl e | Inr k \<Rightarrow> min_from g nid k rest))"

text \<open>The edges to add and to remove for one redundant id, collected over a snapshot of
  the edges while the graph is unchanged.\<close>

definition edges_to_add ::
  "DiGraph \<Rightarrow> string \<Rightarrow> string \<Rightarrow> (string \<times> string \<times> edge_attr) list" where
  "edges_to_add g canonical nid =
     concat (map (\<lambda>(u, v, d).
        (if v = nid \<and> has_node g u \<and> \<not> has_edge g u canonical then [(u, canonical, d)] else [])
        @ (if u = nid \<and> has_node g v \<and> \<not> has_edge g canonical v then [(canonical, v, d)]
           else [])) (edges g))"

definition edges_to_remove :: "DiGraph \<Rightarrow> string \<Rightarrow> (string \<times> string) list" where
  "edges_to_remove g nid =
     concat (map (\<lambda>(u, v, d).
        (if v = nid \<and> has_node g u then [(u, v)] else [])
        @ (if u = nid \<and> has_node g v then [(u, v)] else [])) (edges g))"

text \<open>The body of the inner loop for an id that is in the graph and is not the canonical
  one.\<close>

definition redirect_edges :: "DiGraph \<Rightarrow> string \<Rightarrow> string \<Rightarrow> DiGraph" where
  "redirect_edges g canonical nid =
     (let g1 = fold (\<lambda>(u, v, d) g. nx_add_edge g u v d) (edges_to_add g canonical nid) g;
          g2 = fold (\<lambda>(u, v) g. if has_edge g u v then remove_edge g u v else g)
                 (edges_to_remove g nid) g1
      in if has_node g2 nid then remove_node g2 nid else g2)"

text \<open>The inner loop \<open>for nid in ids\<close>.\<close>

fun merge_ids :: "DiGraph \<Rightarrow> string \<Rightarrow> string list \<Rightarrow> DiGraph" where
  "merge_ids g canonical [] = g"
| "merge_ids g canonical (nid # ids) =
     (if nid = canonical then merge_ids g canonical ids
      else if \<not> has_node g nid then merge_ids g canonical ids
      else merge_ids (redirect_edges g canonical nid) canonical ids)"

text \<open>The outer loop \<open>for name, ids in simple_to_ids.items()\<close>.\<close>

fun merge_groups :: "DiGraph \<Rightarrow> (string \<times> string list) list \<Rightarrow> error + DiGraph" where
  "merge_groups g [] = Inr g"
| "merge_groups g ((nm, ids) # groups) =
     (if length ids \<le> 1 then merge_groups g groups
      else (case canonical_id g ids of
              Inl e \<Rightarrow> Inl e
            | Inr canonical \<Rightarrow> merge_groups (merge_ids g canonical ids) groups))"

definition merge_nodes_by_reference :: "DiGraph \<Rightarrow> error + DiGraph" where
  "merge_nodes_by_reference g = merge_groups g (simple_to_ids g)"

text \<open>The ids of the nodes grouped under a name, in node order, and the dictionary
  invariant of a graph: no node id occurs twice.\<close>

definition ids_named :: "DiGraph \<Rightarrow> string \<Rightarrow> string list" where
  "ids_named g nm = map fst (filter (\<lambda>(k, d, adj). group_name d = Some nm) g)"

definition node_view :: "DiGraph \<Rightarrow> (string \<times> node_data option) list" where
  "node_view g = map (\<lambda>(k, d, adj). (k, d)) g"


text \<open>The graph of the repository's test of the merge: \<open>Test\<close> defined in \<open>dummy.py\<close>, a
  placeholder \<open>Test\<close> of another package, and a function calling the placeholder.\<close>

definition test_graph :: DiGraph where
  "test_graph =
     CodeGraph_add_edge
       (CodeGraph_add_node
          (CodeGraph_add_node
             (CodeGraph_add_node []
                (create_test_node ''function:dummy.Test'' ''Test'' (Some ''dummy.py'')))
             (create_test_node ''function:dummy_alt.Test'' ''Test'' None))
          (create_test_node ''function:dummy.func'' ''func'' (Some ''dummy.py'')))
       ''function:dummy.func''
       \<lparr>edge_type = CALLS, source_node_id = ''function:dummy.func'',
        target_node_id = ''function:dummy_alt.Test'', source_node_type = FUNCTION,
        target_node_type = FUNCTION\<rparr>"

text \<open>The same graph after canonicalization.\<close>

definition merged_test_graph :: DiGraph where
  "merged_test_graph =
     [(''function:dummy.Test'',
       Some \<lparr>data_name = Some ''Test'', data_source_file = Some ''dummy.py''\<rparr>, []),
      (''function:dummy.func'',
       Some \<lparr>data_name = Some ''func'', data_source_file = Some ''dummy.py''\<rparr>,
       [(''function:dummy.Test'', [(''relationship'', ''calls'')])])]"


section \<open>The project builder (code\_graph/utils.py) and the indexer (code\_indexer/indexer.py)\<close>

text \<open>\<open>build_from_code\<close>: nothing catches what the parser or the visitor raise.\<close>

definition build_from_code ::
  "(string \<Rightarrow> error + ast) \<Rightarrow> environment \<Rightarrow> string \<Rightarrow> string \<Rightarrow> string \<Rightarrow> error + DiGraph" where
  "build_from_code parse E source code project_root =
     (case run_visitor parse E source code project_root of
        Inl e \<Rightarrow> Inl e
      | Inr s \<Rightarrow> Inr (build_from_nodes [] (get_graph_nodes s)))"

text \<open>\<open>merge_graphs\<close>: \<open>attr.get("data", attr)\<close> of a node without \<open>data\<close> is its empty
  attribute dictionary, a \<open>data\<close> without name or source file.\<close>

definition merge_graphs :: "DiGraph \<Rightarrow> DiGraph \<Rightarrow> DiGraph" where
  "merge_graphs master module_graph =
     fold (\<lambda>(u, v, a) g.
             nx_add_edge g u v
               [(''relationship'', (case map_of a ''relationship'' of None \<Rightarrow> [] | Some r \<Rightarrow> r))])
       (edges module_graph)
       (fold (\<lambda>(nid, d, adj) g.
                nx_add_node g nid
                  (case d of None \<Rightarrow> \<lparr>data_name = None, data_source_file = None\<rparr>
                   | Some dd \<Rightarrow> dd))
          module_graph master)"

text \<open>The loop of \<open>build_project_graph\<close> over the files found below the root, each with the
  text \<open>read_python_file\<close> returns, \<open>None\<close> when the file cannot be read or decoded.\<close>

fun build_files ::
  "(string \<Rightarrow> error + ast) \<Rightarrow> environment \<Rightarrow> string \<Rightarrow> DiGraph
     \<Rightarrow> (string \<times> string option) list \<Rightarrow> error + DiGraph" where
  "build_files parse E root master [] = Inr master"
| "build_files parse E root master ((filepath, None) # files) =
     build_files parse E root master files"
| "build_files parse E root master ((filepath, Some code) # files) =
     (case build_from_code parse E filepath code root of
        Inl e \<Rightarrow> Inl e
      | Inr module_graph \<Rightarrow> build_files parse E root (merge_graphs master module_graph) files)"

definition build_project_graph ::
  "(string \<Rightarrow> error + ast) \<Rightarrow> environment \<Rightarrow> string \<Rightarrow> (string \<times> string option) list
     \<Rightarrow> error + DiGraph" where
  "build_project_graph parse E root files =
     (case build_files parse E root [] files of
        Inl e \<Rightarrow> Inl e
      | Inr master \<Rightarrow> merge_nodes_by_reference master)"

text \<open>\<open>extract_code_components\<close> of the indexer: a syntax error is reported and the file
  yields no nodes.\<close>

definition extract_code_components ::
  "(string \<Rightarrow> error + ast) \<Rightarrow> environment \<Rightarrow> string \<Rightarrow> string \<Rightarrow> string
     \<Rightarrow> error + GraphNode list" where
  "extract_code_components parse E source code project_root =
     (case parse code of
        Inl e \<Rightarrow> (if e = SyntaxError then Inr [] else Inl e)
      | Inr tree \<Rightarrow>
          (case CodeVisitor_init parse source code project_root of
             Inl e \<Rightarrow> Inl e
           | Inr s \<Rightarrow>
               (case visit E tree s of Inl e \<Rightarrow> Inl e | Inr s' \<Rightarrow> Inr (get_graph_nodes s'))))"

text \<open>A parser for two texts: \<open>def (\<close> is not a program, anything else is an empty module.\<close>

definition sample_parse :: "string \<Rightarrow> error + ast" where
  "sample_parse code = (if code = ''def ('' then Inl SyntaxError else Inr (Other []))"


section \<open>Edge validity\<close>

text \<open>C1: constructing a GraphEdge fails with an error (no edge is produced) exactly when the
  triple (edge type, source type, target type) is outside the allow-list, and otherwise
  yields the edge with the given fields; an Inherits edge is constructible exactly for
  source type Class and target type Class.\<close>

theorem GraphEdge_constructible_iff_allowed:
  "mk_GraphEdge et sid tid st tt =
     (if (st, tt) \<in> set (VALID_EDGES et)
      then Inr \<lparr>edge_type = et, source_node_id = sid, target_node_id = tid,
                source_node_type = st, target_node_type = tt\<rparr>
      else Inl ValueError)
   \<and> ((\<exists>e. mk_GraphEdge INHERITS sid tid st tt = Inr e) \<longleftrightarrow> (st = CLASS \<and> tt = CLASS))"
  by (auto simp: mk_GraphEdge_def validate_edge_def)

section \<open>Strings\<close>

lemma join_snoc: "join sep (xs @ [x]) = (if xs = [] then x else join sep xs @ sep @ x)"
  by (induction sep xs rule: join.induct) auto

lemma rsplit1_head_append: "c \<notin> set b \<Longrightarrow> rsplit1_head c (a @ c # b) = a"
  by (simp add: rsplit1_head_def dropWhile_append dropWhile_eq_Nil_conv)

lemma split1_prefix: "c \<notin> set a \<Longrightarrow> split1 c (a @ c # b) = [a, b]"
proof -
  assume a: "c \<notin> set a"
  then have "dropWhile (\<lambda>x. x \<noteq> c) a = []" "takeWhile (\<lambda>x. x \<noteq> c) a = a"
    by (auto simp: dropWhile_eq_Nil_conv takeWhile_eq_all_conv)
  then show ?thesis
    by (simp add: split1_def takeWhile_append dropWhile_append a)
qed

lemma package_of_id_composite:
  "CHR '':'' \<notin> set t \<Longrightarrow> CHR ''.'' \<notin> set nm \<Longrightarrow>
   package_of_id (t @ '':'' @ P @ ''.'' @ nm) = P"
  by (simp add: package_of_id_def split1_prefix rsplit1_head_append)

lemma after_colon_has_colon:
  "CHR '':'' \<in> set x \<Longrightarrow>
   \<exists>full. after_colon x = Inr full \<and> package_of_id x = rsplit1_head CHR ''.'' full"
  by (simp add: after_colon_def package_of_id_def split1_def)

section \<open>Module ids\<close>

text \<open>C10, as amended: for a source file whose base name is not \<open>__init__.py\<close> and whose
  path relative to the project root ends in that base name, the module id is
  \<open>module:<P>.<name>\<close>, where \<open>name\<close> is the file's stem and the path-derived prefix \<open>P\<close>
  already ends in \<open>name\<close>; when the stem contains no dot, the package path derived from the
  id is \<open>P\<close> itself, so it ends with the module's own name.\<close>

theorem module_id_repeats_name:
  assumes "basename source \<noteq> ''__init__.py''"
    and "last (relpath_parts source root) = basename source"
  shows "compute_module_id source root =
           ''module:'' @ compute_package_full_path source root @ ''.''
             @ splitext_root (basename source)
         \<and> suffix (splitext_root (basename source)) (compute_package_full_path source root)
         \<and> module_simple_name source = splitext_root (basename source)
         \<and> (CHR ''.'' \<notin> set (splitext_root (basename source)) \<longrightarrow>
              package_of_id (compute_module_id source root)
                = compute_package_full_path source root)"
proof -
  let ?nm = "splitext_root (basename source)"
  let ?P = "compute_package_full_path source root"
  have nm: "module_simple_name source = ?nm"
    using assms(1) by (simp add: module_simple_name_def)
  have P: "?P = join ''.'' (butlast (relpath_parts source root) @ [?nm])"
    using assms by (simp add: compute_package_full_path_def Let_def)
  have suf: "suffix ?nm ?P"
    unfolding P join_snoc by (auto simp: suffix_def)
  have mid: "compute_module_id source root = ''module:'' @ ?P @ ''.'' @ ?nm"
    by (simp add: compute_module_id_def nm)
  have pk: "package_of_id (compute_module_id source root) = ?P" if "CHR ''.'' \<notin> set ?nm"
    unfolding mid using package_of_id_composite [of "''module''" ?nm ?P] that by simp
  show ?thesis using nm suf mid pk by blast
qed

text \<open>The file \<open>pkg/mod.py\<close> below the root \<open>/p\<close>.\<close>

theorem module_id_repeats_name_witness:
  "compute_module_id ''/p/pkg/mod.py'' ''/p'' = ''module:pkg.mod.mod''
   \<and> suffix ''mod'' ''pkg.mod''
   \<and> package_of_id ''module:pkg.mod.mod'' = ''pkg.mod''"
proof -
  have a: "basename ''/p/pkg/mod.py'' \<noteq> ''__init__.py''" by code_simp
  have b: "last (relpath_parts ''/p/pkg/mod.py'' ''/p'') = basename ''/p/pkg/mod.py''"
    by code_simp
  have c: "splitext_root (basename ''/p/pkg/mod.py'') = ''mod''" by code_simp
  have d: "compute_package_full_path ''/p/pkg/mod.py'' ''/p'' = ''pkg.mod''" by code_simp
  have e: "compute_module_id ''/p/pkg/mod.py'' ''/p'' = ''module:pkg.mod.mod''" by code_simp
  show ?thesis using module_id_repeats_name [OF a b] unfolding c d e by simp
qed

text \<open>The claim as stated fails for a stem with a dot: for \<open>a.b.py\<close> the id is
  \<open>module:a.b.a.b\<close>, and the package path derived from it, \<open>a.b.a\<close>, does not end with the
  module's name \<open>a.b\<close>.\<close>

theorem module_id_dotted_stem_counterexample:
  "basename ''/proj/a.b.py'' \<noteq> ''__init__.py''
   \<and> module_simple_name ''/proj/a.b.py'' = ''a.b''
   \<and> compute_module_id ''/proj/a.b.py'' ''/proj'' = ''module:a.b.a.b''
   \<and> package_of_id (compute_module_id ''/proj/a.b.py'' ''/proj'') = ''a.b.a''
   \<and> \<not> suffix (module_simple_name ''/proj/a.b.py'')
          (package_of_id (compute_module_id ''/proj/a.b.py'' ''/proj''))"
  by code_simp


section \<open>The reference table\<close>

lemma update_reference_table_fields [simp]:
  "graph_nodes (update_reference_table n s) = graph_nodes s"
  "module_id (update_reference_table n s) = module_id s"
  "current_parent_ids (update_reference_table n s) = current_parent_ids s"
  "src_file (update_reference_table n s) = src_file s"
  "imported_module_cache (update_reference_table n s) = imported_module_cache s"
  by (simp_all add: update_reference_table_def Let_def)

lemma has_source_key:
  assumes "has_source nodes e"
  shows "e \<in> fst ` set nodes"
proof (cases "map_of nodes e")
  case None
  then show ?thesis using assms by (simp add: has_source_def)
next
  case (Some x)
  then show ?thesis by (metis domI dom_map_of_conv_image_fst)
qed

text \<open>Both versions keep a stored id whose node carries a source file.\<close>

lemma update_reference_table_keeps_definition:
  assumes "stored_id s (name n) (package_of_id (node_id n)) = Some e"
    and "has_source (graph_nodes s) e" and "e \<noteq> []"
  shows "stored_id (update_reference_table n s) (name n) (package_of_id (node_id n)) = Some e"
    and "stored_id (update_reference_table_cv n s) (name n) (package_of_id (node_id n)) = Some e"
proof -
  have k: "e \<in> fst ` set (graph_nodes s)"
    using assms(2) by (rule has_source_key)
  show "stored_id (update_reference_table n s) (name n) (package_of_id (node_id n)) = Some e"
    using assms k
    by (auto simp: stored_id_def update_reference_table_def Let_def update_conv'
        split: option.splits if_splits)
  show "stored_id (update_reference_table_cv n s) (name n) (package_of_id (node_id n)) = Some e"
    using assms
    by (auto simp: stored_id_def update_reference_table_cv_def Let_def update_conv'
        split: option.splits if_splits)
qed

text \<open>The version of code\_visitor.py replaces a stored id only when the stored node lacks a
  source file and the new node has one.\<close>

lemma update_reference_table_cv_replaces_only_better:
  assumes "stored_id s (name n) (package_of_id (node_id n)) = Some e" and "e \<noteq> []"
    and "stored_id (update_reference_table_cv n s) (name n) (package_of_id (node_id n)) \<noteq> Some e"
  shows "\<not> has_source (graph_nodes s) e \<and> truthy (source_file (metadata n))"
  using assms
  by (auto simp: stored_id_def update_reference_table_cv_def Let_def update_conv'
      split: option.splits if_splits)

text \<open>The version of visitor.py replaces a stored id whenever the stored node lacks a source
  file, whatever the new node carries.\<close>

lemma update_reference_table_replaces_placeholder:
  assumes "stored_id s (name n) (package_of_id (node_id n)) = Some e"
    and "\<not> has_source (graph_nodes s) e"
  shows "stored_id (update_reference_table n s) (name n) (package_of_id (node_id n))
           = Some (node_id n)"
  using assms
  by (auto simp: stored_id_def update_reference_table_def Let_def update_conv'
      split: option.splits if_splits)

text \<open>C5: the reference table replaces a stored id only when the stored node lacks
  source-file metadata and the new node has it. The update of visitor.py does not: with a
  placeholder \<open>function:dummy.first\<close> stored for (\<open>test_func\<close>, \<open>dummy\<close>), adding a second
  placeholder \<open>function:dummy.second\<close> replaces the stored id, where the update of
  code\_visitor.py keeps it.\<close>

theorem update_reference_table_placeholder_replaced:
  "map_sum id (\<lambda>s. stored_id s ''test_func'' ''dummy'')
     (case add_node (create_test_node ''function:dummy.first'' ''test_func'' None)
             dummy_visitor of
        Inl e \<Rightarrow> Inl e
      | Inr s \<Rightarrow> add_node (create_test_node ''function:dummy.second'' ''test_func'' None) s)
    = Inr (Some ''function:dummy.second'')
   \<and> map_sum id (\<lambda>s. stored_id s ''test_func'' ''dummy'')
       (case add_node_cv (create_test_node ''function:dummy.first'' ''test_func'' None)
               dummy_visitor of
          Inl e \<Rightarrow> Inl e
        | Inr s \<Rightarrow> add_node_cv (create_test_node ''function:dummy.second'' ''test_func'' None) s)
      = Inr (Some ''function:dummy.first'')"
  by code_simp

section \<open>Lookup\<close>

lemma lookup_with_candidates:
  "cs \<noteq> [] \<Longrightarrow>
   lookup_node (with_candidates s nm cs) nm = lookup_loop (graph_nodes s) cs None (- 1)"
  by (simp add: lookup_node_def with_candidates_def update_conv')

text \<open>C4: with exactly two candidates for a name, one whose node carries a source file and
  one whose node does not, \<open>lookup_node\<close> returns the one with the source file in either
  insertion order; with equal scores it returns the one with the smaller package path. In
  the second part each candidate is filed under the package of its composite id, as
  \<open>update_reference_table\<close> files it.\<close>

theorem lookup_node_two_candidates:
  "(has_source (graph_nodes s) a \<and> \<not> has_source (graph_nodes s) b \<longrightarrow>
      lookup_node (with_candidates s nm [(pa, a), (pb, b)]) nm = Inr (Some a)
      \<and> lookup_node (with_candidates s nm [(pb, b), (pa, a)]) nm = Inr (Some a))
   \<and> (has_source (graph_nodes s) a = has_source (graph_nodes s) b
       \<and> CHR '':'' \<in> set a \<and> CHR '':'' \<in> set b
       \<and> pa = package_of_id a \<and> pb = package_of_id b \<and> pa < pb \<longrightarrow>
      lookup_node (with_candidates s nm [(pa, a), (pb, b)]) nm = Inr (Some a)
      \<and> lookup_node (with_candidates s nm [(pb, b), (pa, a)]) nm = Inr (Some a))"
proof (intro conjI impI)
  assume h: "has_source (graph_nodes s) a \<and> \<not> has_source (graph_nodes s) b"
  show "lookup_node (with_candidates s nm [(pa, a), (pb, b)]) nm = Inr (Some a)"
    using h by (simp add: lookup_with_candidates)
  show "lookup_node (with_candidates s nm [(pb, b), (pa, a)]) nm = Inr (Some a)"
    using h by (simp add: lookup_with_candidates)
next
  assume h: "has_source (graph_nodes s) a = has_source (graph_nodes s) b
       \<and> CHR '':'' \<in> set a \<and> CHR '':'' \<in> set b
       \<and> pa = package_of_id a \<and> pb = package_of_id b \<and> pa < pb"
  from h obtain fa where fa: "after_colon a = Inr fa" "pa = rsplit1_head CHR ''.'' fa"
    using after_colon_has_colon [of a] by auto
  from h obtain fb where fb: "after_colon b = Inr fb" "pb = rsplit1_head CHR ''.'' fb"
    using after_colon_has_colon [of b] by auto
  have lt: "pa < pb" "\<not> pb < pa" using h by auto
  show "lookup_node (with_candidates s nm [(pa, a), (pb, b)]) nm = Inr (Some a)"
    using h lt fa fb by (simp add: lookup_with_candidates)
  show "lookup_node (with_candidates s nm [(pb, b), (pa, a)]) nm = Inr (Some a)"
    using h lt fa fb by (simp add: lookup_with_candidates)
qed



theorem lookup_node_two_candidates_witness:
  "lookup_node (with_candidates lookup_state ''f''
       [(''a'', ''function:a.f''), (''b'', ''function:b.f'')]) ''f'' = Inr (Some ''function:a.f'')
   \<and> lookup_node (with_candidates lookup_state ''f''
       [(''b'', ''function:b.f''), (''a'', ''function:a.f'')]) ''f'' = Inr (Some ''function:a.f'')
   \<and> lookup_node (with_candidates lookup_state ''f''
       [(''a'', ''function:a.f''), (''c'', ''function:c.f'')]) ''f'' = Inr (Some ''function:a.f'')
   \<and> lookup_node (with_candidates lookup_state ''f''
       [(''c'', ''function:c.f''), (''a'', ''function:a.f'')]) ''f'' = Inr (Some ''function:a.f'')"
proof -
  have h1: "has_source (graph_nodes lookup_state) ''function:a.f''
            \<and> \<not> has_source (graph_nodes lookup_state) ''function:b.f''"
    by code_simp
  have h2: "has_source (graph_nodes lookup_state) ''function:a.f''
              = has_source (graph_nodes lookup_state) ''function:c.f''
            \<and> CHR '':'' \<in> set ''function:a.f'' \<and> CHR '':'' \<in> set ''function:c.f''
            \<and> ''a'' = package_of_id ''function:a.f'' \<and> ''c'' = package_of_id ''function:c.f''
            \<and> ''a'' < ''c''"
    by code_simp
  show ?thesis
    using h1 h2
      lookup_node_two_candidates [of lookup_state "''function:a.f''" "''function:b.f''"
        "''f''" "''a''" "''b''"]
      lookup_node_two_candidates [of lookup_state "''function:a.f''" "''function:c.f''"
        "''f''" "''a''" "''c''"]
    by blast
qed

section \<open>Imports\<close>

lemma mk_GraphEdge_imports [simp]:
  "mk_GraphEdge IMPORTS a b MODULE MODULE = Inr (imports_edge a b)"
  by (simp add: mk_GraphEdge_def validate_edge_def imports_edge_def)






text \<open>The visitor of \<open>/p/dummy.py\<close> is what the constructor returns, and \<open>import os\<close> visited
  there, where no module can be located, yields the placeholder.\<close>

lemma CodeVisitor_init_dummy:
  "CodeVisitor_init (\<lambda>code. Inr (Other [Import [''os'']])) ''/p/dummy.py'' ''import os'' ''/p''
     = Inr dummy_visitor"
  by code_simp




section \<open>Ownership of relationships\<close>

text \<open>C8: every node's relationship list should hold only edges that start at the node.
  Visiting a decorated function \<open>@deco def f(): pass\<close> leaves in the list of \<open>f\<close> a
  Decorates edge whose source is the decorator \<open>function:dummy.deco\<close>: \<open>handle_decorators\<close>
  appends to the list directly, past the check of \<open>add_relationship\<close>.\<close>

theorem handle_decorators_breaks_ownership:
  "map_sum id (\<lambda>s. (edges_held s, relationships_owned s))
     (run_visitor (\<lambda>code. Inr (Other [FunctionDef ''f'' [] [] [Name ''deco'']])) no_modules
        ''/p/dummy.py'' ''@deco def f(): pass'' ''/p'')
   = Inr ([(''module:dummy.dummy'', [(CONTAINS, ''module:dummy.dummy'', ''function:dummy.f'')]),
           (''function:dummy.f'', [(DECORATES, ''function:dummy.deco'', ''function:dummy.f'')])],
          False)"
  by code_simp



section \<open>Canonicalization\<close>

lemma keys_node_view: "map fst (node_view g) = map fst g"
  by (induction g) (auto simp: node_view_def)

lemma has_node_view: "has_node g n = (n \<in> fst ` set (node_view g))"
  by (metis has_node_def keys_node_view list.set_map)

lemma ids_named_view:
  "ids_named g nm = map fst (filter (\<lambda>(k, d). group_name d = Some nm) (node_view g))"
  by (induction g) (auto simp: ids_named_def node_view_def)

lemma node_view_set_adj [simp]: "node_view (set_adj g u f) = node_view g"
  by (induction g) (auto simp: node_view_def set_adj_def)

lemma ensure_node_present: "has_node g n \<Longrightarrow> ensure_node g n = g"
  by (simp add: ensure_node_def)

lemma node_view_add_edge:
  "has_node g u \<Longrightarrow> has_node g v \<Longrightarrow> node_view (nx_add_edge g u v a) = node_view g"
  by (simp add: nx_add_edge_def ensure_node_present)

lemma node_view_remove_edge [simp]: "node_view (remove_edge g u v) = node_view g"
  by (simp add: remove_edge_def)

lemma node_view_remove_node:
  "node_view (remove_node g n) = filter (\<lambda>(k, d). k \<noteq> n) (node_view g)"
  by (induction g) (auto simp: node_view_def remove_node_def)

lemma filter_absent_key:
  "n \<notin> fst ` set xs \<Longrightarrow> filter (\<lambda>(k, d). k \<noteq> n) xs = xs"
  by (induction xs) auto


lemma edges_to_add_nodes:
  assumes "has_node g c" and "(u, v, d) \<in> set (edges_to_add g c nid)"
  shows "has_node g u \<and> has_node g v"
proof -
  from assms(2) obtain u' v' d' where e: "(u', v', d') \<in> set (edges g)"
    and m: "(u, v, d) \<in> set ((if v' = nid \<and> has_node g u' \<and> \<not> has_edge g u' c then [(u', c, d')] else [])
        @ (if u' = nid \<and> has_node g v' \<and> \<not> has_edge g c v' then [(c, v', d')] else []))"
    unfolding edges_to_add_def by fastforce
  from m assms(1) show ?thesis by (auto split: if_splits)
qed


lemma node_view_fold_add:
  "(\<And>u v d. (u, v, d) \<in> set adds \<Longrightarrow> has_node g u \<and> has_node g v) \<Longrightarrow>
   node_view (fold (\<lambda>(u, v, d) g. nx_add_edge g u v d) adds g) = node_view g"
proof (induction adds arbitrary: g)
  case Nil
  then show ?case by simp
next
  case (Cons a adds)
  obtain u v d where a: "a = (u, v, d)" by (cases a) auto
  have uv: "has_node g u" "has_node g v" using Cons.prems [of u v d] a by auto
  have nv: "node_view (nx_add_edge g u v d) = node_view g"
    using uv by (rule node_view_add_edge)
  have "node_view (fold (\<lambda>(u, v, d) g. nx_add_edge g u v d) adds (nx_add_edge g u v d))
          = node_view (nx_add_edge g u v d)"
  proof (rule Cons.IH)
    fix u' v' d' assume "(u', v', d') \<in> set adds"
    then have "has_node g u' \<and> has_node g v'" using Cons.prems [of u' v' d'] by simp
    then show "has_node (nx_add_edge g u v d) u' \<and> has_node (nx_add_edge g u v d) v'"
      by (simp add: has_node_view nv)
  qed
  then show ?case by (simp add: a nv)
qed

lemma node_view_fold_remove:
  "node_view (fold (\<lambda>(u, v) g. if has_edge g u v then remove_edge g u v else g) rs g)
     = node_view g"
  by (induction rs arbitrary: g) (auto split: prod.splits)

lemma redirect_edges_unfold:
  "redirect_edges g c nid =
     (if has_node (fold (\<lambda>(u, v) g. if has_edge g u v then remove_edge g u v else g)
               (edges_to_remove g nid) (fold (\<lambda>(u, v, d) g. nx_add_edge g u v d) (edges_to_add g c nid) g)) nid
      then remove_node (fold (\<lambda>(u, v) g. if has_edge g u v then remove_edge g u v else g)
               (edges_to_remove g nid) (fold (\<lambda>(u, v, d) g. nx_add_edge g u v d) (edges_to_add g c nid) g)) nid
      else (fold (\<lambda>(u, v) g. if has_edge g u v then remove_edge g u v else g)
               (edges_to_remove g nid) (fold (\<lambda>(u, v, d) g. nx_add_edge g u v d) (edges_to_add g c nid) g)))"
  unfolding redirect_edges_def Let_def by (rule refl)

lemma node_view_redirect_edges:
  assumes "has_node g c"
  shows "node_view (redirect_edges g c nid) = filter (\<lambda>(k, d). k \<noteq> nid) (node_view g)"
proof -
  define g1 where "g1 = fold (\<lambda>(u, v, d) g. nx_add_edge g u v d) (edges_to_add g c nid) g"
  define g2 where "g2 = fold (\<lambda>(u, v) g. if has_edge g u v then remove_edge g u v else g)
               (edges_to_remove g nid) g1"
  have g1: "node_view g1 = node_view g"
    unfolding g1_def by (rule node_view_fold_add) (rule edges_to_add_nodes [OF assms])
  have g2: "node_view g2 = node_view g"
    unfolding g2_def by (simp only: node_view_fold_remove g1)
  have r: "redirect_edges g c nid = (if has_node g2 nid then remove_node g2 nid else g2)"
    unfolding g2_def g1_def by (rule redirect_edges_unfold)
  show ?thesis
  proof (cases "has_node g2 nid")
    case True
    then show ?thesis by (simp only: r if_True node_view_remove_node g2)
  next
    case False
    then have "nid \<notin> fst ` set (node_view g)" by (simp only: has_node_view g2 not_False_eq_True)
    then have "filter (\<lambda>(k, d). k \<noteq> nid) (node_view g) = node_view g"
      by (rule filter_absent_key)
    then show ?thesis using False by (simp only: r if_False g2)
  qed
qed


lemma merge_ids_skip:
  "nid = c \<or> \<not> has_node g nid \<Longrightarrow> merge_ids g c (nid # ids) = merge_ids g c ids"
  by auto

lemma merge_ids_step:
  "nid \<noteq> c \<Longrightarrow> has_node g nid \<Longrightarrow>
   merge_ids g c (nid # ids) = merge_ids (redirect_edges g c nid) c ids"
  by simp

lemma node_view_merge_ids:
  "has_node g c \<Longrightarrow>
   node_view (merge_ids g c ids) = filter (\<lambda>(k, d). k = c \<or> k \<notin> set ids) (node_view g)"
proof (induction ids arbitrary: g)
  case Nil
  then show ?case by simp
next
  case (Cons nid ids)
  show ?case
  proof (cases "nid = c \<or> \<not> has_node g nid")
    case True
    have "filter (\<lambda>(k, d). k = c \<or> k \<notin> set (nid # ids)) (node_view g)
            = filter (\<lambda>(k, d). k = c \<or> k \<notin> set ids) (node_view g)"
    proof (rule filter_cong [OF refl])
      fix x assume x: "x \<in> set (node_view g)"
      obtain k d where kd: "x = (k, d)" by (cases x)
      have "k \<in> fst ` set (node_view g)" using x kd by (metis fst_conv image_eqI)
      then have "has_node g k" by (simp only: has_node_view)
      then have "k = c \<or> k \<noteq> nid" using True by blast
      then show "(case x of (k, d) \<Rightarrow> k = c \<or> k \<notin> set (nid # ids))
                   = (case x of (k, d) \<Rightarrow> k = c \<or> k \<notin> set ids)"
        unfolding kd by auto
    qed
    then show ?thesis
      using Cons.IH [OF Cons.prems] by (simp only: merge_ids_skip [OF True])
  next
    case False
    then have ne: "nid \<noteq> c" and hn: "has_node g nid" by blast+
    define g' where "g' = redirect_edges g c nid"
    have nv: "node_view g' = filter (\<lambda>(k, d). k \<noteq> nid) (node_view g)"
      unfolding g'_def using Cons.prems by (rule node_view_redirect_edges)
    have "c \<in> fst ` set (node_view g)" using Cons.prems by (simp only: has_node_view)
    then obtain d where "(c, d) \<in> set (node_view g)" by auto
    then have "(c, d) \<in> set (node_view g')" using ne unfolding nv by simp
    then have "c \<in> fst ` set (node_view g')" by (metis fst_conv image_eqI)
    then have c: "has_node g' c" by (simp only: has_node_view)
    have "node_view (merge_ids g' c ids)
            = filter (\<lambda>(k, d). k = c \<or> k \<notin> set ids) (node_view g')"
      using c by (rule Cons.IH)
    also have "\<dots> = filter (\<lambda>(k, d). k = c \<or> k \<notin> set (nid # ids)) (node_view g)"
      unfolding nv filter_filter
    proof (rule filter_cong [OF refl])
      fix x assume "x \<in> set (node_view g)"
      obtain k d where kd: "x = (k, d)" by (cases x)
      show "((case x of (k, d) \<Rightarrow> k \<noteq> nid) \<and> (case x of (k, d) \<Rightarrow> k = c \<or> k \<notin> set ids))
              = (case x of (k, d) \<Rightarrow> k = c \<or> k \<notin> set (nid # ids))"
        unfolding kd using ne by auto
    qed
    finally show ?thesis
      unfolding g'_def by (simp only: merge_ids_step [OF ne hn])
  qed
qed


lemma ids_named_Cons:
  "ids_named ((k, d, adj) # g) nm =
     (if group_name d = Some nm then k # ids_named g nm else ids_named g nm)"
  by (simp add: ids_named_def)

lemma ids_named_Nil [simp]: "ids_named [] nm = []"
  by (simp add: ids_named_def)

lemma simple_to_ids_step_None:
  "group_name d = None \<Longrightarrow> simple_to_ids_step (k, d, adj) acc = acc"
  by (simp add: simple_to_ids_step_def)

lemma simple_to_ids_step_Some:
  "group_name d = Some n \<Longrightarrow>
   simple_to_ids_step (k, d, adj) acc =
     AList.update n ((case map_of acc n of None \<Rightarrow> [] | Some ids \<Rightarrow> ids) @ [k]) acc"
  by (simp add: simple_to_ids_step_def)

lemma map_of_fold_step:
  "map_of (fold simple_to_ids_step g acc) nm =
     (if ids_named g nm = [] then map_of acc nm
      else Some ((case map_of acc nm of None \<Rightarrow> [] | Some l \<Rightarrow> l) @ ids_named g nm))"
proof (induction g arbitrary: acc)
  case Nil
  then show ?case by simp
next
  case (Cons e g)
  obtain k d adj where e: "e = (k, d, adj)" by (cases e)
  show ?case
  proof (cases "group_name d")
    case None
    then show ?thesis
      unfolding e by (simp add: simple_to_ids_step_None ids_named_Cons Cons.IH)
  next
    case (Some n)
    show ?thesis
    proof (cases "n = nm")
      case True
      show ?thesis
        unfolding e using Some True
        by (simp add: simple_to_ids_step_Some ids_named_Cons Cons.IH update_conv')
    next
      case False
      show ?thesis
        unfolding e using Some False
        by (simp add: simple_to_ids_step_Some ids_named_Cons Cons.IH update_conv')
    qed
  qed
qed

lemma distinct_fold_step:
  "distinct (map fst acc) \<Longrightarrow> distinct (map fst (fold simple_to_ids_step g acc))"
proof (induction g arbitrary: acc)
  case Nil
  then show ?case by simp
next
  case (Cons e g)
  obtain k d adj where e: "e = (k, d, adj)" by (cases e)
  have "distinct (map fst (simple_to_ids_step e acc))"
    unfolding e using Cons.prems
    by (cases "group_name d") (simp_all add: simple_to_ids_step_None simple_to_ids_step_Some distinct_update)
  then show ?case using Cons.IH by simp
qed

lemma map_of_simple_to_ids:
  "map_of (simple_to_ids g) nm = (if ids_named g nm = [] then None else Some (ids_named g nm))"
  by (simp add: simple_to_ids_def map_of_fold_step)

lemma distinct_simple_to_ids: "distinct (map fst (simple_to_ids g))"
  unfolding simple_to_ids_def by (rule distinct_fold_step) simp

lemma simple_to_ids_group:
  assumes "(nm, ids) \<in> set (simple_to_ids g)"
  shows "ids = ids_named g nm"
proof -
  have "map_of (simple_to_ids g) nm = Some ids"
    using assms distinct_simple_to_ids by (rule map_of_is_SomeI [rotated])
  then show ?thesis by (simp add: map_of_simple_to_ids split: if_splits)
qed

lemma merge_groups_skip_all:
  "(\<And>nm ids. (nm, ids) \<in> set gs \<Longrightarrow> length ids \<le> 1) \<Longrightarrow> merge_groups g gs = Inr g"
proof (induction gs)
  case Nil
  then show ?case by simp
next
  case (Cons a gs)
  obtain nm ids where a: "a = (nm, ids)" by (cases a)
  have "length ids \<le> 1" using Cons.prems [of nm ids] a by simp
  moreover have "merge_groups g gs = Inr g"
  proof (rule Cons.IH)
    fix nm' ids' assume "(nm', ids') \<in> set gs"
    then show "length ids' \<le> 1" using Cons.prems [of nm' ids'] by simp
  qed
  ultimately show ?case unfolding a by simp
qed


lemma min_from_mem: "min_from g best k ids = Inr c \<Longrightarrow> c = best \<or> c \<in> set ids"
proof (induction ids arbitrary: best k)
  case Nil
  then show ?case by simp
next
  case (Cons nid ids)
  show ?case
  proof (cases "score g nid")
    case (Inl e)
    then show ?thesis using Cons.prems by simp
  next
    case (Inr k')
    show ?thesis
    proof (cases "score_less k' k")
      case True
      then have "min_from g nid k' ids = Inr c" using Cons.prems Inr by simp
      then have "c = nid \<or> c \<in> set ids" by (rule Cons.IH)
      then show ?thesis by auto
    next
      case False
      then have "min_from g best k ids = Inr c" using Cons.prems Inr by simp
      then have "c = best \<or> c \<in> set ids" by (rule Cons.IH)
      then show ?thesis by auto
    qed
  qed
qed

lemma canonical_id_mem: "canonical_id g ids = Inr c \<Longrightarrow> c \<in> set ids"
  by (auto simp: canonical_id_def split: list.splits sum.splits dest: min_from_mem)

lemma ids_named_keys: "set (ids_named g nm) \<subseteq> fst ` set g"
  by (auto simp: ids_named_def)

lemma distinct_key_unique:
  "distinct (map fst V) \<Longrightarrow> (k, d) \<in> set V \<Longrightarrow> (k, d') \<in> set V \<Longrightarrow> d = d'"
  by (meson eq_key_imp_eq_value)

lemma filter_key_at_most_one:
  "distinct (map fst V) \<Longrightarrow> length (filter (\<lambda>(k, d). k = c \<and> P d) V) \<le> 1"
proof (induction V)
  case Nil
  then show ?case by simp
next
  case (Cons a V)
  obtain k d where a: "a = (k, d)" by (cases a)
  show ?case
  proof (cases "k = c")
    case True
    then have "c \<notin> fst ` set V" using Cons.prems a by simp
    then have "filter (\<lambda>(k, d). k = c \<and> P d) V = []"
      by (auto simp: filter_empty_conv intro: rev_image_eqI)
    then show ?thesis unfolding a by simp
  next
    case False
    then show ?thesis using Cons unfolding a by simp
  qed
qed

text \<open>Names other than the merged one keep their ids; the merged name keeps one.\<close>

lemma ids_named_merge_ids_other:
  assumes d: "distinct (map fst g)" and c: "has_node g c" and ne: "nm' \<noteq> nm"
  shows "ids_named (merge_ids g c (ids_named g nm)) nm' = ids_named g nm'"
proof -
  let ?V = "node_view g"
  define I where "I = ids_named g nm"
  have I: "\<And>k. k \<in> set I \<Longrightarrow> \<exists>d'. (k, d') \<in> set ?V \<and> group_name d' = Some nm"
    unfolding I_def ids_named_view by auto
  have dV: "distinct (map fst ?V)" using d by (simp only: keys_node_view)
  have "filter (\<lambda>(k, d). group_name d = Some nm')
          (filter (\<lambda>(k, d). k = c \<or> k \<notin> set I) ?V)
        = filter (\<lambda>(k, d). group_name d = Some nm') ?V"
    unfolding filter_filter
  proof (rule filter_cong [OF refl])
    fix x assume x: "x \<in> set ?V"
    obtain k dd where kd: "x = (k, dd)" by (cases x)
    have "k \<notin> set I" if n: "group_name dd = Some nm'"
    proof
      assume "k \<in> set I"
      then obtain d' where "(k, d') \<in> set ?V" "group_name d' = Some nm"
        using I by blast
      then have "d' = dd" using dV x kd distinct_key_unique by metis
      then show False using n ne \<open>group_name d' = Some nm\<close> by simp
    qed
    then show "((case x of (k, d) \<Rightarrow> k = c \<or> k \<notin> set I)
                 \<and> (case x of (k, d) \<Rightarrow> group_name d = Some nm'))
               = (case x of (k, d) \<Rightarrow> group_name d = Some nm')"
      unfolding kd by auto
  qed
  then have "ids_named (merge_ids g c I) nm' = ids_named g nm'"
    by (simp only: ids_named_view node_view_merge_ids [OF c])
  then show ?thesis unfolding I_def .
qed

lemma ids_named_merge_ids_same:
  assumes d: "distinct (map fst g)" and c: "has_node g c"
  shows "length (ids_named (merge_ids g c (ids_named g nm)) nm) \<le> 1"
proof -
  let ?V = "node_view g"
  define I where "I = ids_named g nm"
  have I: "\<And>k dd. (k, dd) \<in> set ?V \<Longrightarrow> group_name dd = Some nm \<Longrightarrow> k \<in> set I"
    unfolding I_def ids_named_view by force
  have dV: "distinct (map fst ?V)" using d by (simp only: keys_node_view)
  have "filter (\<lambda>(k, d). group_name d = Some nm)
          (filter (\<lambda>(k, d). k = c \<or> k \<notin> set I) ?V)
        = filter (\<lambda>(k, d). k = c \<and> group_name d = Some nm) ?V"
    unfolding filter_filter
  proof (rule filter_cong [OF refl])
    fix x assume x: "x \<in> set ?V"
    obtain k dd where kd: "x = (k, dd)" by (cases x)
    have "k \<in> set I" if "group_name dd = Some nm"
      using I x kd that by blast
    then show "((case x of (k, d) \<Rightarrow> k = c \<or> k \<notin> set I)
                 \<and> (case x of (k, d) \<Rightarrow> group_name d = Some nm))
               = (case x of (k, d) \<Rightarrow> k = c \<and> group_name d = Some nm)"
      unfolding kd by auto
  qed
  then have "ids_named (merge_ids g c I) nm
               = map fst (filter (\<lambda>(k, d). k = c \<and> group_name d = Some nm) ?V)"
    by (simp only: ids_named_view node_view_merge_ids [OF c])
  then have "length (ids_named (merge_ids g c I) nm) \<le> 1"
    using filter_key_at_most_one [OF dV, of c "\<lambda>d. group_name d = Some nm"] by simp
  then show ?thesis unfolding I_def .
qed

lemma distinct_merge_ids:
  assumes "distinct (map fst g)" and "has_node g c"
  shows "distinct (map fst (merge_ids g c ids))"
proof -
  have "distinct (map fst (node_view g))" using assms(1) by (simp only: keys_node_view)
  then have "distinct (map fst (filter (\<lambda>(k, d). k = c \<or> k \<notin> set ids) (node_view g)))"
    by (rule distinct_map_filter)
  then show ?thesis
    by (simp only: keys_node_view [symmetric, of "merge_ids g c ids"] node_view_merge_ids [OF assms(2)])
qed


lemma merge_groups_unique_names:
  assumes "distinct (map fst g)" and "distinct (map fst gs)"
    and "\<And>nm ids. (nm, ids) \<in> set gs \<Longrightarrow> ids = ids_named g nm"
    and "\<And>nm. nm \<notin> fst ` set gs \<Longrightarrow> length (ids_named g nm) \<le> 1"
    and "merge_groups g gs = Inr g'"
  shows "distinct (map fst g') \<and> (\<forall>nm. length (ids_named g' nm) \<le> 1)"
  using assms
proof (induction gs arbitrary: g)
  case Nil
  then show ?case by simp
next
  case (Cons a gs)
  obtain nm ids where a: "a = (nm, ids)" by (cases a)
  have ids: "ids = ids_named g nm" using Cons.prems(3) [of nm ids] a by simp
  have nm: "nm \<notin> fst ` set gs" and dgs: "distinct (map fst gs)"
    using Cons.prems(2) a by auto
  show ?case
  proof (cases "length ids \<le> 1")
    case True
    then have m: "merge_groups g gs = Inr g'" using Cons.prems(5) a by simp
    show ?thesis
    proof (rule Cons.IH [OF Cons.prems(1) dgs _ _ m])
      fix nm' ids' assume "(nm', ids') \<in> set gs"
      then show "ids' = ids_named g nm'" using Cons.prems(3) [of nm' ids'] by simp
    next
      fix nm' assume n: "nm' \<notin> fst ` set gs"
      show "length (ids_named g nm') \<le> 1"
      proof (cases "nm' = nm")
        case True
        then show ?thesis using \<open>length ids \<le> 1\<close> ids by simp
      next
        case False
        then have "nm' \<notin> fst ` set (a # gs)" using n a by simp
        then show ?thesis by (rule Cons.prems(4))
      qed
    qed
  next
    case False
    then obtain c where c: "canonical_id g ids = Inr c"
      and m: "merge_groups (merge_ids g c ids) gs = Inr g'"
      using Cons.prems(5) a by (auto split: sum.splits)
    have "c \<in> set ids" using c by (rule canonical_id_mem)
    then have hc: "has_node g c" using ids ids_named_keys [of g nm] by (auto simp: has_node_def)
    let ?g = "merge_ids g c ids"
    have dg: "distinct (map fst ?g)" using Cons.prems(1) hc by (rule distinct_merge_ids)
    show ?thesis
    proof (rule Cons.IH [OF dg dgs _ _ m])
      fix nm' ids' assume in_gs: "(nm', ids') \<in> set gs"
      then have "nm' \<noteq> nm" using nm by (metis fst_conv image_eqI)
      then have "ids_named ?g nm' = ids_named g nm'"
        unfolding ids using Cons.prems(1) hc by (intro ids_named_merge_ids_other)
      moreover have "ids' = ids_named g nm'" using Cons.prems(3) [of nm' ids'] in_gs by simp
      ultimately show "ids' = ids_named ?g nm'" by simp
    next
      fix nm' assume n: "nm' \<notin> fst ` set gs"
      show "length (ids_named ?g nm') \<le> 1"
      proof (cases "nm' = nm")
        case True
        show ?thesis
          unfolding True ids using Cons.prems(1) hc by (rule ids_named_merge_ids_same)
      next
        case False
        then have "nm' \<notin> fst ` set (a # gs)" using n a by simp
        then have "length (ids_named g nm') \<le> 1" by (rule Cons.prems(4))
        moreover have "ids_named ?g nm' = ids_named g nm'"
          unfolding ids using Cons.prems(1) hc False by (intro ids_named_merge_ids_other)
        ultimately show ?thesis by simp
      qed
    qed
  qed
qed

lemma merge_nodes_by_reference_unique_names:
  assumes "distinct (map fst g)" and "merge_nodes_by_reference g = Inr g'"
  shows "distinct (map fst g') \<and> (\<forall>nm. length (ids_named g' nm) \<le> 1)"
proof (rule merge_groups_unique_names [OF assms(1) distinct_simple_to_ids])
  show "merge_groups g (simple_to_ids g) = Inr g'"
    using assms(2) by (simp only: merge_nodes_by_reference_def)
next
  fix nm ids assume "(nm, ids) \<in> set (simple_to_ids g)"
  then show "ids = ids_named g nm" by (rule simple_to_ids_group)
next
  fix nm assume "nm \<notin> fst ` set (simple_to_ids g)"
  then have "map_of (simple_to_ids g) nm = None" by (simp add: map_of_eq_None_iff)
  then have "ids_named g nm = []" by (simp add: map_of_simple_to_ids split: if_splits)
  then show "length (ids_named g nm) \<le> 1" by simp
qed

lemma merge_nodes_by_reference_canonical:
  assumes "\<And>nm. length (ids_named g nm) \<le> 1"
  shows "merge_nodes_by_reference g = Inr g"
  unfolding merge_nodes_by_reference_def
proof (rule merge_groups_skip_all)
  fix nm ids assume "(nm, ids) \<in> set (simple_to_ids g)"
  then have "ids = ids_named g nm" by (rule simple_to_ids_group)
  then show "length ids \<le> 1" using assms by simp
qed

text \<open>C3: canonicalization is idempotent. For every graph (a dictionary of nodes: no id
  occurs twice), running \<open>merge_nodes_by_reference\<close> twice gives what running it once
  gives, an error of the first run included; after a run that returns, a second run returns
  the same graph, in which no two nodes are grouped under one simple name.\<close>

theorem merge_nodes_by_reference_idempotent:
  assumes "distinct (map fst g)"
  shows "(case merge_nodes_by_reference g of Inl e \<Rightarrow> Inl e
          | Inr g' \<Rightarrow> merge_nodes_by_reference g') = merge_nodes_by_reference g
         \<and> (\<forall>g'. merge_nodes_by_reference g = Inr g' \<longrightarrow>
               merge_nodes_by_reference g' = Inr g'
               \<and> (\<forall>nm. length (ids_named g' nm) \<le> 1))"
proof -
  have *: "merge_nodes_by_reference g' = Inr g' \<and> (\<forall>nm. length (ids_named g' nm) \<le> 1)"
    if "merge_nodes_by_reference g = Inr g'" for g'
    using merge_nodes_by_reference_unique_names [OF assms that]
      merge_nodes_by_reference_canonical [of g'] by blast
  show ?thesis
  proof (cases "merge_nodes_by_reference g")
    case (Inl e)
    then show ?thesis by simp
  next
    case (Inr g')
    then show ?thesis using * [OF Inr] by simp
  qed
qed


lemma merge_test_graph: "merge_nodes_by_reference test_graph = Inr merged_test_graph"
  by code_simp

theorem merge_nodes_by_reference_idempotent_witness:
  "merge_nodes_by_reference test_graph = Inr merged_test_graph
   \<and> merge_nodes_by_reference merged_test_graph = Inr merged_test_graph"
proof -
  have d: "distinct (map fst test_graph)" by code_simp
  show ?thesis
    using merge_nodes_by_reference_idempotent [OF d] merge_test_graph by blast
qed


section \<open>Syntax errors in the project build\<close>

text \<open>A file that does not parse makes \<open>build_from_code\<close> raise.\<close>

lemma build_from_code_syntax_error:
  "parse code = Inl e \<Longrightarrow> build_from_code parse E source code root = Inl e"
  by (simp add: build_from_code_def run_visitor_def)

text \<open>Whatever the other files are, a readable file that does not parse leaves the build
  without a graph.\<close>

lemma build_files_syntax_error:
  "(filepath, Some code) \<in> set files \<Longrightarrow> parse code = Inl SyntaxError \<Longrightarrow>
   \<exists>e. build_files parse E root master files = Inl e"
proof (induction files arbitrary: master)
  case Nil
  then show ?case by simp
next
  case (Cons f files)
  obtain p c where f: "f = (p, c)" by (cases f)
  show ?case
  proof (cases c)
    case None
    then show ?thesis using Cons f by auto
  next
    case (Some code')
    show ?thesis
    proof (cases "build_from_code parse E p code' root")
      case (Inl e)
      then show ?thesis using f Some by simp
    next
      case (Inr mg)
      then have "parse code' \<noteq> Inl SyntaxError"
        using build_from_code_syntax_error [of parse code' SyntaxError E p root] by auto
      then have "(filepath, Some code) \<in> set files" using Cons.prems f Some by auto
      then show ?thesis using Cons.IH Cons.prems(2) f Some Inr by simp
    qed
  qed
qed

lemma build_project_graph_syntax_error:
  "(filepath, Some code) \<in> set files \<Longrightarrow> parse code = Inl SyntaxError \<Longrightarrow>
   \<exists>e. build_project_graph parse E root files = Inl e"
  using build_files_syntax_error [of filepath code files parse E root "[]"]
  by (auto simp: build_project_graph_def)

text \<open>C7: a file with a syntax error should be reported and skipped, and the build should
  still return the graph of the remaining files. \<open>build_project_graph\<close> over a good file and
  one that does not parse returns no graph: the \<open>SyntaxError\<close> leaves the builder. The
  indexer's \<open>extract_code_components\<close> catches the same error and goes on without nodes.\<close>

theorem build_project_graph_propagates_syntax_error:
  "build_project_graph sample_parse no_modules ''/p''
     [(''/p/good.py'', Some ''pass''), (''/p/bad.py'', Some ''def ('')] = Inl SyntaxError
   \<and> build_project_graph sample_parse no_modules ''/p'' [(''/p/good.py'', Some ''pass'')]
       = Inr [(''module:good.good'',
               Some \<lparr>data_name = Some ''good'', data_source_file = Some ''/p/good.py''\<rparr>, [])]
   \<and> extract_code_components sample_parse no_modules ''/p/bad.py'' ''def ('' ''/p'' = Inr []"
  by code_simp


section \<open>Merging a placeholder into its definition\<close>




lemma has_edge_ensure_node [simp]: "has_edge (ensure_node g n) x y = has_edge g x y"
  by (cases "map_of g x") (auto simp: ensure_node_def has_edge_def map_add_def split: if_splits)




























end
